theory Spec2Isabelle
  imports Complex_Main "HOL-Library.Char_ord" "HOL-Library.List_Lexorder" "HOL-Library.Multiset"
begin

section \<open>Strings of the runtime\<close>

text \<open>
  A JavaScript string whose code units are all below 256 is modelled as a
  \<^typ>\<open>string\<close>, one \<^typ>\<open>char\<close> per code unit (the Latin-1 range of UTF-16);
  strings with larger code units are outside the model. The built-in string methods
  the sources call are written out on that range as ECMAScript defines them.

  \<open>trim\<close> removes white space and line terminators: tab, line feed, vertical tab, form
  feed, carriage return, space and the no-break space U+00A0.
\<close>

definition isWhiteSpace :: "char \<Rightarrow> bool" where
  "isWhiteSpace c =
     (c \<in> set [CHR 0x09, CHR 0x0A, CHR 0x0B, CHR 0x0C, CHR 0x0D, CHR '' '', CHR 0xA0])"

text \<open>
  The letters with a counterpart of the other case inside the range: \<open>A\<close> to \<open>Z\<close> and
  U+00C0 to U+00DE without the multiplication sign U+00D7, and, 32 above each of them,
  \<open>a\<close> to \<open>z\<close> and U+00E0 to U+00FE without the division sign U+00F7.
\<close>

definition upperLetters :: string where
  "upperLetters = ''ABCDEFGHIJKLMNOPQRSTUVWXYZ'' @
     [CHR 0xC0, CHR 0xC1, CHR 0xC2, CHR 0xC3, CHR 0xC4, CHR 0xC5, CHR 0xC6, CHR 0xC7,
      CHR 0xC8, CHR 0xC9, CHR 0xCA, CHR 0xCB, CHR 0xCC, CHR 0xCD, CHR 0xCE, CHR 0xCF,
      CHR 0xD0, CHR 0xD1, CHR 0xD2, CHR 0xD3, CHR 0xD4, CHR 0xD5, CHR 0xD6, CHR 0xD8,
      CHR 0xD9, CHR 0xDA, CHR 0xDB, CHR 0xDC, CHR 0xDD, CHR 0xDE]"

definition lowerLetters :: string where
  "lowerLetters = ''abcdefghijklmnopqrstuvwxyz'' @
     [CHR 0xE0, CHR 0xE1, CHR 0xE2, CHR 0xE3, CHR 0xE4, CHR 0xE5, CHR 0xE6, CHR 0xE7,
      CHR 0xE8, CHR 0xE9, CHR 0xEA, CHR 0xEB, CHR 0xEC, CHR 0xED, CHR 0xEE, CHR 0xEF,
      CHR 0xF0, CHR 0xF1, CHR 0xF2, CHR 0xF3, CHR 0xF4, CHR 0xF5, CHR 0xF6, CHR 0xF8,
      CHR 0xF9, CHR 0xFA, CHR 0xFB, CHR 0xFC, CHR 0xFD, CHR 0xFE]"

definition lowerChar :: "char \<Rightarrow> char" where
  "lowerChar c = (case map_of (zip upperLetters lowerLetters) c of Some d \<Rightarrow> d | None \<Rightarrow> c)"

definition upperChar :: "char \<Rightarrow> char" where
  "upperChar c = (case map_of (zip lowerLetters upperLetters) c of Some d \<Rightarrow> d | None \<Rightarrow> c)"

text \<open>\<open>toLowerCase\<close> stays inside the range.\<close>

definition toLowerCase :: "string \<Rightarrow> string" where
  "toLowerCase s = map lowerChar s"

text \<open>
  \<open>toUpperCase\<close> leaves the range on three letters: the sharp s U+00DF becomes the two
  letters \<open>SS\<close>, the micro sign U+00B5 becomes U+039C and the y with diaeresis U+00FF
  becomes U+0178. Its result is therefore given as the list of its code units, as
  numbers; \<open>codeUnits\<close> gives the code units of a string of the model.
\<close>

definition upperUnits :: "char \<Rightarrow> nat list" where
  "upperUnits c =
     (if c = CHR 0xDF then [0x53, 0x53]
      else if c = CHR 0xB5 then [0x39C]
      else if c = CHR 0xFF then [0x178]
      else [of_char (upperChar c)])"

definition toUpperCase :: "string \<Rightarrow> nat list" where
  "toUpperCase s = concat (map upperUnits s)"

definition codeUnits :: "string \<Rightarrow> nat list" where
  "codeUnits s = map of_char s"

definition trimStart :: "string \<Rightarrow> string" where
  "trimStart s = dropWhile isWhiteSpace s"

definition trimEnd :: "string \<Rightarrow> string" where
  "trimEnd s = rev (dropWhile isWhiteSpace (rev s))"

definition trim :: "string \<Rightarrow> string" where
  "trim s = trimEnd (trimStart s)"

text \<open>\<open>s.startsWith(p)\<close>, \<open>s.slice(n)\<close> for \<open>0 \<le> n\<close>, \<open>s.includes(p)\<close> and
  \<open>s.indexOf(p)\<close> (\<open>-1\<close> when \<open>p\<close> does not occur).\<close>

definition startsWith :: "string \<Rightarrow> string \<Rightarrow> bool" where
  "startsWith s p = (take (length p) s = p)"

definition slice :: "string \<Rightarrow> nat \<Rightarrow> string" where
  "slice s n = drop n s"

fun indexOfFrom :: "nat \<Rightarrow> string \<Rightarrow> string \<Rightarrow> int" where
  "indexOfFrom i [] p = (if p = [] then int i else - 1)"
| "indexOfFrom i (c # cs) p =
     (if startsWith (c # cs) p then int i else indexOfFrom (Suc i) cs p)"

definition indexOf :: "string \<Rightarrow> string \<Rightarrow> int" where
  "indexOf s p = indexOfFrom 0 s p"

definition includesStr :: "string \<Rightarrow> string \<Rightarrow> bool" where
  "includesStr s p = (0 \<le> indexOf s p)"

text \<open>\<open>s.split(".")\<close>: the pieces between the dots; never the empty list.\<close>

fun splitDot :: "string \<Rightarrow> string list" where
  "splitDot [] = [[]]"
| "splitDot (c # cs) =
     (if c = CHR ''.'' then [] # splitDot cs
      else (case splitDot cs of [] \<Rightarrow> [[c]] | p # ps \<Rightarrow> (c # p) # ps))"

text \<open>Truthiness of an optional string: \<open>undefined\<close> and \<open>""\<close> are falsy.\<close>

definition truthy :: "string option \<Rightarrow> bool" where
  "truthy v = (case v of None \<Rightarrow> False | Some s \<Rightarrow> s \<noteq> [])"

section \<open>Embedding provider\<close>

subsection \<open>Model id normalisation\<close>

definition DEFAULT_BEDROCK_EMBEDDING_MODEL :: string where
  "DEFAULT_BEDROCK_EMBEDDING_MODEL = ''amazon.nova-2-multimodal-embeddings-v1:0''"

definition normalizeBedrockModel :: "string \<Rightarrow> string" where
  "normalizeBedrockModel model =
     (let trimmed = trim model in
      if trimmed = [] then DEFAULT_BEDROCK_EMBEDDING_MODEL
      else if startsWith trimmed ''bedrock/'' then slice trimmed (length ''bedrock/'')
      else trimmed)"

subsection \<open>Response parsing\<close>

text \<open>
  The value \<open>JSON.parse\<close> returns: \<open>null\<close>, a boolean, a number, a string, an array or an
  object. The code never looks into a number, so the number type is a parameter. An
  object keeps its members in the order of the text; a later member with the same key
  overrides an earlier one.
\<close>

datatype 'n json =
    JNull
  | JBool bool
  | JNum 'n
  | JStr string
  | JArr "'n json list"
  | JObj "(string \<times> 'n json) list"

datatype js_error = TypeError | SyntaxError | RequestFailed

text \<open>
  A property read \<open>v.name\<close> on a value that is neither \<open>null\<close> nor \<open>undefined\<close>, for a
  name that is not an array index and is not defined on a prototype (\<open>embeddings\<close>,
  \<open>embedding\<close>). \<open>None\<close> is \<open>undefined\<close>.
\<close>

fun getMember :: "'n json \<Rightarrow> string \<Rightarrow> 'n json option" where
  "getMember (JObj kvs) k = map_of (rev kvs) k"
| "getMember _ k = None"

text \<open>The indexed read \<open>v[0]\<close> on a value that is neither \<open>null\<close> nor \<open>undefined\<close>.\<close>

fun getIndex0 :: "'n json \<Rightarrow> 'n json option" where
  "getIndex0 (JArr xs) = (case xs of [] \<Rightarrow> None | x # _ \<Rightarrow> Some x)"
| "getIndex0 (JStr s) = (case s of [] \<Rightarrow> None | c # _ \<Rightarrow> Some (JStr [c]))"
| "getIndex0 (JObj kvs) = map_of (rev kvs) ''0''"
| "getIndex0 _ = None"

text \<open>Optional chaining \<open>v?.f\<close>: \<open>undefined\<close> when \<open>v\<close> is \<open>null\<close> or \<open>undefined\<close>.\<close>

fun optChain :: "'n json option \<Rightarrow> ('n json \<Rightarrow> 'n json option) \<Rightarrow> 'n json option" where
  "optChain None f = None"
| "optChain (Some JNull) f = None"
| "optChain (Some v) f = f v"

text \<open>Nullish coalescing \<open>v ?? d\<close>.\<close>

fun nullish :: "'n json option \<Rightarrow> 'n json \<Rightarrow> 'n json" where
  "nullish None d = d"
| "nullish (Some JNull) d = d"
| "nullish (Some v) d = v"

text \<open>
  \<open>parseNova2Response\<close>: \<open>payload.embeddings?.[0]?.embedding ?? []\<close>. The first read,
  \<open>payload.embeddings\<close>, is not optional: on \<open>null\<close> it raises a \<open>TypeError\<close>. The cast
  to the payload type checks nothing at run time, so the result is whatever value sits
  at that place.
\<close>

definition parseNova2Response :: "'n json \<Rightarrow> js_error + 'n json" where
  "parseNova2Response body =
     (case body of
        JNull \<Rightarrow> Inl TypeError
      | _ \<Rightarrow>
          Inr (nullish
                 (optChain (optChain (getMember body ''embeddings'') getIndex0)
                    (\<lambda>v. getMember v ''embedding''))
                 (JArr [])))"

text \<open>
  The response handling of \<open>embedSingle\<close>, after \<open>runtimeClient.send\<close> has returned:
  \<open>JSON.parse(new TextDecoder().decode(response.body))\<close>, then the registry's parser.
  \<open>jsonParse\<close> stands for the decoder and \<open>JSON.parse\<close> of the runtime, which raise
  on a text that is not JSON; nothing catches that.
\<close>

definition embedSingleResponse ::
  "(string \<Rightarrow> js_error + 'n json) \<Rightarrow> string \<Rightarrow> js_error + 'n json" where
  "embedSingleResponse jsonParse responseBody =
     (case jsonParse responseBody of
        Inl e \<Rightarrow> Inl e
      | Inr parsed \<Rightarrow> parseNova2Response parsed)"

text \<open>\<open>embedSingle\<close> with the remote call: a rejected \<open>send\<close> propagates.\<close>

definition embedSingle ::
  "(string \<Rightarrow> js_error + string) \<Rightarrow> (string \<Rightarrow> js_error + 'n json) \<Rightarrow> string
     \<Rightarrow> js_error + 'n json" where
  "embedSingle send jsonParse text =
     (case send text of
        Inl e \<Rightarrow> Inl e
      | Inr responseBody \<Rightarrow> embedSingleResponse jsonParse responseBody)"

text \<open>The value at \<open>embeddings[0].embedding\<close>, when every step of the path exists and
  the value is not \<open>null\<close>.\<close>

definition embeddingAt :: "'n json \<Rightarrow> 'n json option" where
  "embeddingAt body =
     (case getMember body ''embeddings'' of
        None \<Rightarrow> None
      | Some es \<Rightarrow>
          (case getIndex0 es of
             None \<Rightarrow> None
           | Some e \<Rightarrow>
               (case getMember e ''embedding'' of
                  None \<Rightarrow> None
                | Some JNull \<Rightarrow> None
                | Some v \<Rightarrow> Some v)))"

section \<open>Model discovery\<close>

subsection \<open>Data\<close>

record modelLifecycle =
  status :: "string option"

record BedrockModelSummary =
  modelId :: "string option"
  modelName :: "string option"
  providerName :: "string option"
  inputModalities :: "string list option"
  outputModalities :: "string list option"
  responseStreamingSupported :: "bool option"
  modelLifecycle :: "modelLifecycle option"

datatype modality = Text | Image

record modelCost =
  costInput :: int
  costOutput :: int
  cacheRead :: int
  cacheWrite :: int

text \<open>\<open>ModelDefinitionConfig\<close>; the fields \<open>id\<close> and \<open>name\<close> are \<open>defId\<close> and \<open>defName\<close>.\<close>

record ModelDefinitionConfig =
  defId :: string
  defName :: string
  reasoning :: bool
  input :: "modality list"
  cost :: modelCost
  contextWindow :: int
  maxTokens :: int

text \<open>The fields of \<open>BedrockDiscoveryConfig\<close> that discovery reads; numbers of the
  configuration are reals, floored by the code.\<close>

record BedrockDiscoveryConfig =
  refreshInterval :: "real option"
  providerFilter :: "string list option"
  defaultContextWindow :: "real option"
  defaultMaxTokens :: "real option"

record modelRef =
  modelArn :: "string option"

record inferenceProfileSummary =
  inferenceProfileId :: "string option"
  models :: "modelRef list option"

record listInferenceProfilesOutput =
  inferenceProfileSummaries :: "inferenceProfileSummary list option"
  nextToken :: "string option"

record listFoundationModelsOutput =
  modelSummaries :: "BedrockModelSummary list option"

definition DEFAULT_REFRESH_INTERVAL_SECONDS :: real where
  "DEFAULT_REFRESH_INTERVAL_SECONDS = 3600"

definition DEFAULT_CONTEXT_WINDOW :: int where
  "DEFAULT_CONTEXT_WINDOW = 32000"

definition DEFAULT_MAX_TOKENS :: int where
  "DEFAULT_MAX_TOKENS = 4096"

definition DEFAULT_COST :: modelCost where
  "DEFAULT_COST = \<lparr>costInput = 0, costOutput = 0, cacheRead = 0, cacheWrite = 0\<rparr>"

subsection \<open>Provider filter and cache key\<close>

text \<open>\<open>Array.from(new Set(xs))\<close>: the elements in the order of their first occurrence.\<close>

definition setFrom :: "string list \<Rightarrow> string list" where
  "setFrom xs = foldl (\<lambda>acc x. if x \<in> set acc then acc else acc @ [x]) [] xs"

text \<open>\<open>toSorted()\<close> without a comparator orders strings by their code units.\<close>

definition normalizeProviderFilter :: "string list option \<Rightarrow> string list" where
  "normalizeProviderFilter filter' =
     (case filter' of
        None \<Rightarrow> []
      | Some f \<Rightarrow>
          if length f = 0 then []
          else sort (setFrom (filter (\<lambda>entry. length entry > 0)
                                (map (\<lambda>entry. toLowerCase (trim entry)) f))))"

record cacheKeyParams =
  key_region :: string
  key_providerFilter :: "string list"
  key_refreshIntervalSeconds :: int
  key_defaultContextWindow :: int
  key_defaultMaxTokens :: int

text \<open>\<open>buildCacheKey\<close> is \<open>JSON.stringify\<close> of the parameters; \<open>stringify\<close> stands for
  that function of the runtime.\<close>

definition buildCacheKey :: "(cacheKeyParams \<Rightarrow> string) \<Rightarrow> cacheKeyParams \<Rightarrow> string" where
  "buildCacheKey stringify params = stringify params"

subsection \<open>Filtering a summary\<close>

definition includesTextModalities :: "string list option \<Rightarrow> bool" where
  "includesTextModalities modalities =
     list_ex (\<lambda>entry. toLowerCase entry = ''text'')
       (case modalities of None \<Rightarrow> [] | Some m \<Rightarrow> m)"

definition isActive :: "BedrockModelSummary \<Rightarrow> bool" where
  "isActive summary =
     (case modelLifecycle summary of
        None \<Rightarrow> False
      | Some lifecycle \<Rightarrow>
          (case status lifecycle of
             None \<Rightarrow> False
           | Some st \<Rightarrow> toUpperCase st = codeUnits ''ACTIVE''))"

definition matchesProviderFilter :: "BedrockModelSummary \<Rightarrow> string list \<Rightarrow> bool" where
  "matchesProviderFilter summary filter' =
     (if length filter' = 0 then True
      else
        let providerName =
              (case providerName summary of
                 Some p \<Rightarrow> Some p
               | None \<Rightarrow>
                   (case modelId summary of
                      None \<Rightarrow> None
                    | Some m \<Rightarrow> (case splitDot m of [] \<Rightarrow> None | p # _ \<Rightarrow> Some p)));
            normalized = map_option (\<lambda>p. toLowerCase (trim p)) providerName
        in case normalized of
             None \<Rightarrow> False
           | Some n \<Rightarrow> if n = [] then False else n \<in> set filter')"

definition shouldIncludeSummary :: "BedrockModelSummary \<Rightarrow> string list \<Rightarrow> bool" where
  "shouldIncludeSummary summary filter' =
     (if \<not> truthy (map_option trim (modelId summary)) then False
      else if \<not> matchesProviderFilter summary filter' then False
      else if responseStreamingSupported summary \<noteq> Some True then False
      else if \<not> includesTextModalities (outputModalities summary) then False
      else if \<not> isActive summary then False
      else True)"

text \<open>Equality of two strings up to letter case, the comparison the specification
  names; the code compares one side after \<open>toLowerCase\<close> or \<open>toUpperCase\<close>.\<close>

definition equalIgnoreCase :: "string \<Rightarrow> string \<Rightarrow> bool" where
  "equalIgnoreCase a b = (toLowerCase a = toLowerCase b)"

subsection \<open>Building a model definition\<close>

definition addModality :: "modality \<Rightarrow> modality list \<Rightarrow> modality list" where
  "addModality m mapped = (if m \<in> set mapped then mapped else mapped @ [m])"

definition mapInputModalities :: "BedrockModelSummary \<Rightarrow> modality list" where
  "mapInputModalities summary =
     (let inputs = (case inputModalities summary of None \<Rightarrow> [] | Some i \<Rightarrow> i);
          mapped =
            foldl (\<lambda>mapped modality.
                     let lower = toLowerCase modality;
                         mapped1 = (if lower = ''text'' then addModality Text mapped else mapped)
                     in if lower = ''image'' then addModality Image mapped1 else mapped1)
              [] inputs
      in if length mapped = 0 then [Text] else mapped)"

definition inferReasoningSupport :: "BedrockModelSummary \<Rightarrow> bool" where
  "inferReasoningSupport summary =
     (let haystack =
            toLowerCase
              ((case modelId summary of None \<Rightarrow> [] | Some m \<Rightarrow> m) @ '' '' @
               (case modelName summary of None \<Rightarrow> [] | Some n \<Rightarrow> n))
      in includesStr haystack ''reasoning'' \<or> includesStr haystack ''thinking'')"

definition resolveDefaultContextWindow :: "BedrockDiscoveryConfig option \<Rightarrow> int" where
  "resolveDefaultContextWindow config =
     (let v = (case Option.bind config defaultContextWindow of
                 None \<Rightarrow> DEFAULT_CONTEXT_WINDOW
               | Some w \<Rightarrow> \<lfloor>w\<rfloor>)
      in if v > 0 then v else DEFAULT_CONTEXT_WINDOW)"

definition resolveDefaultMaxTokens :: "BedrockDiscoveryConfig option \<Rightarrow> int" where
  "resolveDefaultMaxTokens config =
     (let v = (case Option.bind config defaultMaxTokens of
                 None \<Rightarrow> DEFAULT_MAX_TOKENS
               | Some w \<Rightarrow> \<lfloor>w\<rfloor>)
      in if v > 0 then v else DEFAULT_MAX_TOKENS)"

definition baseIdOf :: "BedrockModelSummary \<Rightarrow> string" where
  "baseIdOf summary = (case modelId summary of None \<Rightarrow> [] | Some m \<Rightarrow> trim m)"

definition toModelDefinition ::
  "BedrockModelSummary \<Rightarrow> int \<Rightarrow> int \<Rightarrow> string option \<Rightarrow> ModelDefinitionConfig" where
  "toModelDefinition summary defaultsContextWindow defaultsMaxTokens profileId =
     (let baseId = baseIdOf summary;
          ident = (case profileId of None \<Rightarrow> baseId | Some p \<Rightarrow> p);
          trimmedName = map_option trim (modelName summary)
      in \<lparr>defId = ident,
          defName = (case trimmedName of
                       None \<Rightarrow> ident
                     | Some n \<Rightarrow> if n = [] then ident else n),
          reasoning = inferReasoningSupport summary,
          input = mapInputModalities summary,
          cost = DEFAULT_COST,
          contextWindow = defaultsContextWindow,
          maxTokens = defaultsMaxTokens\<rparr>)"

subsection \<open>The inference-profile map\<close>

text \<open>The body of the loop over \<open>profile.models\<close>.\<close>

definition addModelRef ::
  "string \<Rightarrow> (string \<rightharpoonup> string) \<Rightarrow> modelRef \<Rightarrow> (string \<rightharpoonup> string)" where
  "addModelRef profileId mapping modelRef =
     (let arn = (case modelArn modelRef of None \<Rightarrow> [] | Some a \<Rightarrow> a);
          idx = indexOf arn ''foundation-model/''
      in if idx \<ge> 0 then
           let baseId = trim (slice arn (nat idx + length ''foundation-model/''))
           in if baseId \<noteq> [] then mapping(baseId \<mapsto> profileId) else mapping
         else mapping)"

text \<open>The body of the loop over \<open>response.inferenceProfileSummaries\<close>.\<close>

definition addProfile ::
  "(string \<rightharpoonup> string) \<Rightarrow> inferenceProfileSummary \<Rightarrow> (string \<rightharpoonup> string)" where
  "addProfile mapping profile =
     (case map_option trim (inferenceProfileId profile) of
        None \<Rightarrow> mapping
      | Some profileId \<Rightarrow>
          if profileId = [] then mapping
          else foldl (addModelRef profileId) mapping
                 (case models profile of None \<Rightarrow> [] | Some ms \<Rightarrow> ms))"

definition addPage ::
  "(string \<rightharpoonup> string) \<Rightarrow> listInferenceProfilesOutput \<Rightarrow> (string \<rightharpoonup> string)" where
  "addPage mapping response =
     foldl addProfile mapping
       (case inferenceProfileSummaries response of None \<Rightarrow> [] | Some ps \<Rightarrow> ps)"

text \<open>
  The \<open>do \<dots> while (nextToken)\<close> loop inside the \<open>try\<close>. \<open>send\<close> is
  \<open>client.send(new ListInferenceProfilesCommand({ nextToken }))\<close>: it answers the
  request for a token with a page or rejects. The map is updated in place, so the
  \<open>catch\<close> returns what the pages read so far have put into it. A service that
  keeps returning tokens keeps the loop running: the result is then \<open>None\<close>.
\<close>

partial_function (option) profilePages ::
  "(string option \<Rightarrow> js_error + listInferenceProfilesOutput) \<Rightarrow> string option
     \<Rightarrow> (string \<rightharpoonup> string) \<Rightarrow> (string \<rightharpoonup> string) option" where
  "profilePages send token mapping =
     (case send token of
        Inl e \<Rightarrow> Some mapping
      | Inr response \<Rightarrow>
          if truthy (nextToken response)
          then profilePages send (nextToken response) (addPage mapping response)
          else Some (addPage mapping response))"

definition buildInferenceProfileMap ::
  "(string option \<Rightarrow> js_error + listInferenceProfilesOutput) \<Rightarrow> (string \<rightharpoonup> string) option" where
  "buildInferenceProfileMap send = profilePages send None Map.empty"

text \<open>The pages the loop reads before a given request: \<open>pagesRead send t m t' m'\<close> when,
  started on token \<open>t\<close> with map \<open>m\<close>, the loop reaches the request for token \<open>t'\<close> with
  map \<open>m'\<close>.\<close>

inductive pagesRead ::
  "(string option \<Rightarrow> js_error + listInferenceProfilesOutput) \<Rightarrow> string option
     \<Rightarrow> (string \<rightharpoonup> string) \<Rightarrow> string option \<Rightarrow> (string \<rightharpoonup> string) \<Rightarrow> bool"
  for send where
  pagesRead_none: "pagesRead send t m t m"
| pagesRead_page:
    "send t = Inr response \<Longrightarrow> truthy (nextToken response)
     \<Longrightarrow> pagesRead send (nextToken response) (addPage m response) t' m'
     \<Longrightarrow> pagesRead send t m t' m'"

subsection \<open>The fetch\<close>

text \<open>The body of the loop over \<open>response.modelSummaries\<close>, on the pair of
  \<open>discovered\<close> and \<open>registeredIds\<close>.\<close>

definition emitSummary ::
  "string list \<Rightarrow> int \<Rightarrow> int \<Rightarrow> (string \<rightharpoonup> string)
     \<Rightarrow> ModelDefinitionConfig list \<times> string set \<Rightarrow> BedrockModelSummary
     \<Rightarrow> ModelDefinitionConfig list \<times> string set" where
  "emitSummary filter' ctxWindow maxTok profileMap acc summary =
     (let discovered = fst acc; registeredIds = snd acc in
      if \<not> shouldIncludeSummary summary filter' then (discovered, registeredIds)
      else
        let baseId = baseIdOf summary;
            profileId = profileMap baseId;
            def = toModelDefinition summary ctxWindow maxTok profileId;
            discovered1 = discovered @ [def];
            registeredIds1 = insert (defId def) registeredIds
        in if truthy profileId \<and> baseId \<notin> registeredIds1
           then (discovered1 @
                   [toModelDefinition summary ctxWindow maxTok None],
                 insert baseId registeredIds1)
           else (discovered1, registeredIds1))"

definition emitAll ::
  "string list \<Rightarrow> int \<Rightarrow> int \<Rightarrow> (string \<rightharpoonup> string) \<Rightarrow> BedrockModelSummary list
     \<Rightarrow> ModelDefinitionConfig list \<times> string set" where
  "emitAll filter' ctxWindow maxTok profileMap summaries =
     foldl (emitSummary filter' ctxWindow maxTok profileMap)
       ([], {}) summaries"

text \<open>\<open>toSorted(compare)\<close>, a stable sort; \<open>localeCompare\<close> is the collation of the
  runtime.\<close>

fun insertSorted ::
  "(string \<Rightarrow> string \<Rightarrow> int) \<Rightarrow> ModelDefinitionConfig \<Rightarrow> ModelDefinitionConfig list
     \<Rightarrow> ModelDefinitionConfig list" where
  "insertSorted localeCompare a [] = [a]"
| "insertSorted localeCompare a (b # bs) =
     (if localeCompare (defName a) (defName b) < 0 then a # b # bs
      else b # insertSorted localeCompare a bs)"

definition toSortedByName ::
  "(string \<Rightarrow> string \<Rightarrow> int) \<Rightarrow> ModelDefinitionConfig list \<Rightarrow> ModelDefinitionConfig list" where
  "toSortedByName localeCompare ds = foldl (\<lambda>acc a. insertSorted localeCompare a acc) [] ds"

text \<open>
  The promise \<open>discoveryPromise\<close>: \<open>Promise.all\<close> of the model listing and the profile
  map, then the loop and the sort. \<open>Some (Inl e)\<close> is a rejection, \<open>Some (Inr v)\<close> a
  fulfilment, \<open>None\<close> a promise that never settles.
\<close>

definition discoveryPromise ::
  "(string \<Rightarrow> string \<Rightarrow> int) \<Rightarrow> js_error + listFoundationModelsOutput
     \<Rightarrow> (string option \<Rightarrow> js_error + listInferenceProfilesOutput)
     \<Rightarrow> string list \<Rightarrow> int \<Rightarrow> int \<Rightarrow> (js_error + ModelDefinitionConfig list) option" where
  "discoveryPromise localeCompare listModels sendProfiles filter'
       ctxWindow maxTok =
     (case listModels of
        Inl e \<Rightarrow> Some (Inl e)
      | Inr response \<Rightarrow>
          (case buildInferenceProfileMap sendProfiles of
             None \<Rightarrow> None
           | Some profileMap \<Rightarrow>
               Some (Inr (toSortedByName localeCompare
                            (fst (emitAll filter' ctxWindow
                                    maxTok profileMap
                                    (case modelSummaries response of
                                       None \<Rightarrow> [] | Some ss \<Rightarrow> ss)))))))"

subsection \<open>The cache\<close>

text \<open>A promise is named by the number of the fetch that created it.\<close>

record BedrockDiscoveryCacheEntry =
  expiresAt :: int
  cachedValue :: "ModelDefinitionConfig list option"
  inFlight :: "nat option"

text \<open>The module state: the cache, the flag, and two records of what the module has
  done to the outside: the fetches started and the warnings logged.\<close>

record discoveryState =
  discoveryCache :: "string \<rightharpoonup> BedrockDiscoveryCacheEntry"
  hasLoggedBedrockError :: bool
  fetchesStarted :: nat
  warningsLogged :: nat

definition initialState :: discoveryState where
  "initialState =
     \<lparr>discoveryCache = Map.empty, hasLoggedBedrockError = False,
      fetchesStarted = 0, warningsLogged = 0\<rparr>"

text \<open>The parameters of a call; \<open>now\<close> is the reading of \<open>params.now?.() ?? Date.now()\<close>.\<close>

record discoverParams =
  region :: string
  config :: "BedrockDiscoveryConfig option"
  now :: int

definition refreshIntervalSecondsOf :: "discoverParams \<Rightarrow> int" where
  "refreshIntervalSecondsOf params =
     max 0 \<lfloor>case Option.bind (config params) refreshInterval of
              None \<Rightarrow> DEFAULT_REFRESH_INTERVAL_SECONDS
            | Some r \<Rightarrow> r\<rfloor>"

definition providerFilterOf :: "discoverParams \<Rightarrow> string list" where
  "providerFilterOf params = normalizeProviderFilter (Option.bind (config params) providerFilter)"

definition cacheKeyOf :: "(cacheKeyParams \<Rightarrow> string) \<Rightarrow> discoverParams \<Rightarrow> string" where
  "cacheKeyOf stringify params =
     buildCacheKey stringify
       \<lparr>key_region = region params,
        key_providerFilter = providerFilterOf params,
        key_refreshIntervalSeconds = refreshIntervalSecondsOf params,
        key_defaultContextWindow = resolveDefaultContextWindow (config params),
        key_defaultMaxTokens = resolveDefaultMaxTokens (config params)\<rparr>"

text \<open>How a call of \<open>discoverBedrockModels\<close> leaves its synchronous part: with the
  cached value, with the in-flight promise of an earlier call, or suspended at
  \<open>await discoveryPromise\<close> on the promise of a fetch it has started.\<close>

datatype callOutcome =
    ReturnedCached "ModelDefinitionConfig list"
  | ReturnedInFlight nat
  | AwaitingFetch nat

text \<open>\<open>discoverBedrockModels\<close> up to the \<open>await\<close>. Creating the client is taken
  to succeed; the promise of the fetch a call starts is named by \<open>fetchesStarted\<close>.\<close>

definition discoverBedrockModels_call ::
  "(cacheKeyParams \<Rightarrow> string) \<Rightarrow> discoverParams \<Rightarrow> discoveryState
     \<Rightarrow> callOutcome \<times> discoveryState" where
  "discoverBedrockModels_call stringify params s =
     (let refreshIntervalSeconds = refreshIntervalSecondsOf params;
          cacheKey = cacheKeyOf stringify params;
          cached = (if refreshIntervalSeconds > 0 then discoveryCache s cacheKey else None);
          fresh = (case cached of
                     None \<Rightarrow> None
                   | Some entry \<Rightarrow>
                       if expiresAt entry > now params then cachedValue entry else None);
          pending = Option.bind cached inFlight
      in case fresh of
           Some v \<Rightarrow> (ReturnedCached v, s)
         | None \<Rightarrow>
             (case pending of
                Some p \<Rightarrow> (ReturnedInFlight p, s)
              | None \<Rightarrow>
                  let p = fetchesStarted s;
                      s1 = s\<lparr>fetchesStarted := Suc p\<rparr>
                  in (AwaitingFetch p,
                      if refreshIntervalSeconds > 0
                      then s1\<lparr>discoveryCache := (discoveryCache s1)(cacheKey \<mapsto>
                                \<lparr>expiresAt = now params + refreshIntervalSeconds * 1000,
                                 cachedValue = None, inFlight = Some p\<rparr>)\<rparr>
                      else s1)))"

text \<open>\<open>discoverBedrockModels\<close> from the \<open>await\<close> on, once the promise has settled:
  the \<open>try\<close> block on a fulfilment, the \<open>catch\<close> block on a rejection.\<close>

definition discoverBedrockModels_resume ::
  "(cacheKeyParams \<Rightarrow> string) \<Rightarrow> discoverParams \<Rightarrow> js_error + ModelDefinitionConfig list
     \<Rightarrow> discoveryState \<Rightarrow> ModelDefinitionConfig list \<times> discoveryState" where
  "discoverBedrockModels_resume stringify params settled s =
     (let refreshIntervalSeconds = refreshIntervalSecondsOf params;
          cacheKey = cacheKeyOf stringify params
      in case settled of
           Inr v \<Rightarrow>
             (v,
              if refreshIntervalSeconds > 0
              then s\<lparr>discoveryCache := (discoveryCache s)(cacheKey \<mapsto>
                       \<lparr>expiresAt = now params + refreshIntervalSeconds * 1000,
                        cachedValue = Some v, inFlight = None\<rparr>)\<rparr>
              else s)
         | Inl error \<Rightarrow>
             (let s1 = (if refreshIntervalSeconds > 0
                        then s\<lparr>discoveryCache := (discoveryCache s)(cacheKey := None)\<rparr>
                        else s);
                  s2 = (if \<not> hasLoggedBedrockError s1
                        then s1\<lparr>hasLoggedBedrockError := True,
                                warningsLogged := Suc (warningsLogged s1)\<rparr>
                        else s1)
              in ([], s2)))"

text \<open>
  What the promise returned by a call settles to, given how the promise of the fetch
  has settled: a call that returned \<open>cached.inFlight\<close> takes the settlement of that
  promise as it is; the call that started the fetch runs the code after its \<open>await\<close>.
\<close>

definition discoverBedrockModels_result ::
  "(cacheKeyParams \<Rightarrow> string) \<Rightarrow> discoverParams \<Rightarrow> callOutcome
     \<Rightarrow> (nat \<Rightarrow> js_error + ModelDefinitionConfig list) \<Rightarrow> discoveryState
     \<Rightarrow> (js_error + ModelDefinitionConfig list) \<times> discoveryState" where
  "discoverBedrockModels_result stringify params outcome settlement s =
     (case outcome of
        ReturnedCached v \<Rightarrow> (Inr v, s)
      | ReturnedInFlight p \<Rightarrow> (settlement p, s)
      | AwaitingFetch p \<Rightarrow>
          (let r = discoverBedrockModels_resume stringify params (settlement p) s
           in (Inr (fst r), snd r)))"

subsection \<open>Properties and example inputs used below\<close>


text \<open>A decoder that knows two JSON texts, \<open>{}\<close> and \<open>null\<close>, and rejects the rest.\<close>

definition exampleJsonParse :: "string \<Rightarrow> js_error + int json" where
  "exampleJsonParse t =
     (if t = ''{}'' then Inr (JObj [])
      else if t = ''null'' then Inr JNull
      else Inl SyntaxError)"

definition exampleSummary :: BedrockModelSummary where
  "exampleSummary =
     \<lparr>modelId = Some ''anthropic.claude-3-haiku'', modelName = Some ''Claude 3 Haiku'',
      providerName = Some ''Anthropic'', inputModalities = Some [''TEXT'', ''IMAGE''],
      outputModalities = Some [''TEXT''], responseStreamingSupported = Some True,
      modelLifecycle = Some \<lparr>status = Some ''ACTIVE''\<rparr>\<rparr>"

text \<open>An inference-profile listing whose first page names one profile and a second
  page, and whose request for the second page is rejected.\<close>

definition exampleProfilePage :: listInferenceProfilesOutput where
  "exampleProfilePage =
     \<lparr>inferenceProfileSummaries = Some
        [\<lparr>inferenceProfileId = Some ''us.anthropic.claude-3-haiku'',
          models = Some
            [\<lparr>modelArn = Some
               ''arn:aws:bedrock:us-east-1::foundation-model/anthropic.claude-3-haiku''\<rparr>]\<rparr>],
      nextToken = Some ''page-2''\<rparr>"

definition secondPageRejected ::
  "string option \<Rightarrow> js_error + listInferenceProfilesOutput" where
  "secondPageRejected token =
     (if token = None then Inr exampleProfilePage else Inl RequestFailed)"

definition firstPageRejected ::
  "string option \<Rightarrow> js_error + listInferenceProfilesOutput" where
  "firstPageRejected token = Inl RequestFailed"

text \<open>The entries a provider filter stands for: its entries trimmed and in lower
  case, the blank ones left out.\<close>

definition normalizedEntries :: "string list \<Rightarrow> string set" where
  "normalizedEntries f = (\<lambda>entry. toLowerCase (trim entry)) ` set f - {[]}"

text \<open>
  Two provider filters that differ only in presentation: in the order of the entries,
  in the letter case or the surrounding white space of an entry, in duplicates, or in
  blank entries.
\<close>

inductive samePresentation :: "string list \<Rightarrow> string list \<Rightarrow> bool" where
  same: "samePresentation f f"
| order: "mset f = mset g \<Longrightarrow> samePresentation f g"
| letterCase: "equalIgnoreCase a b \<Longrightarrow> samePresentation (f @ a # g) (f @ b # g)"
| whitespace: "trim a = trim b \<Longrightarrow> samePresentation (f @ a # g) (f @ b # g)"
| duplicate: "a \<in> set (f @ g) \<Longrightarrow> samePresentation (f @ a # g) (f @ g)"
| blank: "trim a = [] \<Longrightarrow> samePresentation (f @ a # g) (f @ g)"
| sym: "samePresentation f g \<Longrightarrow> samePresentation g f"
| trans: "samePresentation f g \<Longrightarrow> samePresentation g h \<Longrightarrow> samePresentation f h"

text \<open>A serialisation for the examples: the region, then the filter entries.\<close>

definition exampleStringify :: "cacheKeyParams \<Rightarrow> string" where
  "exampleStringify k = key_region k @ concat (map (\<lambda>entry. CHR '','' # entry) (key_providerFilter k))"

definition exampleParams :: discoverParams where
  "exampleParams = \<lparr>region = ''us-east-1'', config = None, now = 1000\<rparr>"

text \<open>The same call, ten seconds and two hours later.\<close>

definition exampleParamsSoon :: discoverParams where
  "exampleParamsSoon = \<lparr>region = ''us-east-1'', config = None, now = 11000\<rparr>"

definition exampleParamsLate :: discoverParams where
  "exampleParamsLate = \<lparr>region = ''us-east-1'', config = None, now = 7201000\<rparr>"

text \<open>A call with caching switched off.\<close>

definition exampleParamsNoCache :: discoverParams where
  "exampleParamsNoCache =
     \<lparr>region = ''us-east-1'',
      config = Some \<lparr>refreshInterval = Some 0, providerFilter = None,
                     defaultContextWindow = None, defaultMaxTokens = None\<rparr>,
      now = 1000\<rparr>"

text \<open>Every fetch is rejected; every fetch is fulfilled with no models.\<close>

definition allRejected :: "nat \<Rightarrow> js_error + ModelDefinitionConfig list" where
  "allRejected f = Inl RequestFailed"

definition allFulfilled :: "nat \<Rightarrow> js_error + ModelDefinitionConfig list" where
  "allFulfilled f = Inr []"

text \<open>The state after the fetch of \<open>exampleParams\<close> has been fulfilled with no models.\<close>

definition exampleFreshState :: discoveryState where
  "exampleFreshState =
     \<lparr>discoveryCache = [''us-east-1'' \<mapsto>
        \<lparr>expiresAt = 3601000, cachedValue = Some [], inFlight = None\<rparr>],
      hasLoggedBedrockError = False, fetchesStarted = 1, warningsLogged = 0\<rparr>"

text \<open>
  The reasons for which the specification discards a summary, in its words: it has no
  id (none, or a blank one); it fails the provider-name filter, that is, the filter is
  not empty and the provider name, trimmed and in lower case, is blank or not one of
  its entries (the provider name being the part of the model id before its first dot
  when the summary carries none); it does not support response streaming; it does not
  advertise a \<open>text\<close> output modality, up to letter case; its lifecycle status is not
  \<open>ACTIVE\<close>, up to letter case.
\<close>

definition discardedBySpecification :: "BedrockModelSummary \<Rightarrow> string list \<Rightarrow> bool" where
  "discardedBySpecification summary flt =
     ((case modelId summary of None \<Rightarrow> True | Some m \<Rightarrow> trim m = [])
      \<or> (flt \<noteq> [] \<and>
          (case providerName summary of
             Some p \<Rightarrow> toLowerCase (trim p) = [] \<or> toLowerCase (trim p) \<notin> set flt
           | None \<Rightarrow>
               (case modelId summary of
                  None \<Rightarrow> True
                | Some m \<Rightarrow>
                    toLowerCase (trim (takeWhile (\<lambda>c. c \<noteq> CHR ''.'') m)) = []
                    \<or> toLowerCase (trim (takeWhile (\<lambda>c. c \<noteq> CHR ''.'') m)) \<notin> set flt)))
      \<or> responseStreamingSupported summary \<noteq> Some True
      \<or> \<not> list_ex (\<lambda>entry. equalIgnoreCase entry ''text'')
             (case outputModalities summary of None \<Rightarrow> [] | Some ms \<Rightarrow> ms)
      \<or> (case modelLifecycle summary of
            None \<Rightarrow> True
          | Some lifecycle \<Rightarrow>
              (case status lifecycle of
                 None \<Rightarrow> True
               | Some st \<Rightarrow> \<not> equalIgnoreCase st ''ACTIVE'')))"

text \<open>The example summary with a lifecycle status other than \<open>ACTIVE\<close>.\<close>

definition exampleLegacySummary :: BedrockModelSummary where
  "exampleLegacySummary =
     \<lparr>modelId = Some ''anthropic.claude-v2'', modelName = Some ''Claude 2'',
      providerName = Some ''Anthropic'', inputModalities = Some [''TEXT''],
      outputModalities = Some [''TEXT''], responseStreamingSupported = Some True,
      modelLifecycle = Some \<lparr>status = Some ''LEGACY''\<rparr>\<rparr>"

section \<open>Facts about strings\<close>

lemmas string_defs =
  isWhiteSpace_def upperLetters_def lowerLetters_def lowerChar_def upperChar_def
  toLowerCase_def toUpperCase_def upperUnits_def codeUnits_def trimStart_def trimEnd_def
  trim_def startsWith_def slice_def

lemma dropWhile_same_length: "length (dropWhile P xs) = length xs \<Longrightarrow> dropWhile P xs = xs"
proof -
  assume a: "length (dropWhile P xs) = length xs"
  have "length (takeWhile P xs) + length (dropWhile P xs) = length xs"
    by (metis length_append takeWhile_dropWhile_id)
  with a have "takeWhile P xs = []" by simp
  then show ?thesis by (metis takeWhile_dropWhile_id append_Nil)
qed

lemma trim_fixed_ends:
  assumes "s \<noteq> []" "trim s = s"
  shows "\<not> isWhiteSpace (hd s) \<and> \<not> isWhiteSpace (last s)"
proof -
  have len: "length (trimStart s) \<le> length s"
    by (simp add: trimStart_def length_dropWhile_le)
  have "length (trim s) \<le> length (trimStart s)"
    using length_dropWhile_le [of isWhiteSpace "rev (trimStart s)"]
    by (simp add: trim_def trimEnd_def)
  with assms len have "length (trimStart s) = length s" by simp
  then have ts: "trimStart s = s"
    unfolding trimStart_def by (rule dropWhile_same_length)
  with assms(1) have h: "\<not> isWhiteSpace (hd s)"
    unfolding trimStart_def by (metis hd_dropWhile)
  from ts assms(2) have "rev (dropWhile isWhiteSpace (rev s)) = s"
    by (simp add: trim_def trimEnd_def)
  then have "dropWhile isWhiteSpace (rev s) = rev s"
    by (metis rev_rev_ident)
  with assms(1) have "\<not> isWhiteSpace (hd (rev s))"
    by (metis hd_dropWhile rev_is_Nil_conv)
  with assms(1) have "\<not> isWhiteSpace (last s)" by (simp add: hd_rev)
  with h show ?thesis by simp
qed

lemma trim_prefixed:
  assumes "s \<noteq> []" "trim s = s" "p \<noteq> []" "\<not> isWhiteSpace (hd p)"
  shows "trim (p @ s) = p @ s"
proof -
  from trim_fixed_ends [OF assms(1,2)] have l: "\<not> isWhiteSpace (last s)" by simp
  from assms(3,4) have a: "trimStart (p @ s) = p @ s"
    by (cases p) (simp_all add: trimStart_def)
  from assms(1) l have "\<not> isWhiteSpace (hd (rev s))" by (simp add: hd_rev)
  with assms(1) have "dropWhile isWhiteSpace (rev s @ rev p) = rev s @ rev p"
    by (cases "rev s") simp_all
  then show ?thesis using a by (simp add: trim_def trimEnd_def)
qed

lemma trim_all_white:
  assumes "\<forall>c\<in>set s. isWhiteSpace c"
  shows "trim s = []"
proof -
  from assms have h: "dropWhile isWhiteSpace s = []" by simp
  show ?thesis unfolding trim_def trimStart_def trimEnd_def h by simp
qed



subsection \<open>Letter case\<close>

lemma lowerChar_other: "c \<notin> set upperLetters \<Longrightarrow> lowerChar c = c"
  by (simp add: lowerChar_def map_of_zip_is_None [THEN iffD2] upperLetters_def lowerLetters_def)

lemma upperChar_other: "c \<notin> set lowerLetters \<Longrightarrow> upperChar c = c"
  by (simp add: upperChar_def map_of_zip_is_None [THEN iffD2] upperLetters_def lowerLetters_def)

lemma lowerChar_upperChar: "lowerChar (upperChar c) = lowerChar c"
proof (cases "c \<in> set lowerLetters")
  case False
  then show ?thesis by (simp add: upperChar_other)
next
  case True
  then show ?thesis unfolding lowerLetters_def
    by (elim disjE | simp add: string_defs)+
qed

lemma upperChar_lowerChar: "upperChar (lowerChar c) = upperChar c"
proof (cases "c \<in> set upperLetters")
  case False
  then show ?thesis by (simp add: lowerChar_other)
next
  case True
  then show ?thesis unfolding upperLetters_def
    by (elim disjE | simp add: string_defs)+
qed

lemma isWhiteSpace_lowerChar: "isWhiteSpace (lowerChar c) = isWhiteSpace c"
proof (cases "c \<in> set upperLetters")
  case False
  then show ?thesis by (simp add: lowerChar_other)
next
  case True
  then show ?thesis unfolding upperLetters_def
    by (elim disjE | simp add: string_defs)+
qed

text \<open>The capitals \<open>A\<close> to \<open>Z\<close> without \<open>S\<close>: on a word made of them, comparing after
  \<open>toUpperCase\<close> is comparing up to letter case.\<close>

lemma plainCapital_facts:
  assumes "d \<in> set ''ABCDEFGHIJKLMNOPQRTUVWXYZ''"
  shows "upperChar d = d \<and> upperChar (lowerChar d) = d
         \<and> lowerChar d \<noteq> CHR 0xDF \<and> lowerChar d \<noteq> CHR 0xB5 \<and> lowerChar d \<noteq> CHR 0xFF
         \<and> (of_char d :: nat) \<noteq> 0x53 \<and> (of_char d :: nat) \<noteq> 0x39C
         \<and> (of_char d :: nat) \<noteq> 0x178"
  using assms by (elim disjE | simp add: string_defs)+

lemma special_lowerChar:
  "lowerChar (CHR 0xDF) = CHR 0xDF \<and> lowerChar (CHR 0xB5) = CHR 0xB5
   \<and> lowerChar (CHR 0xFF) = CHR 0xFF"
  by (simp add: string_defs)

lemma upperChar_eq_plainCapital:
  assumes "d \<in> set ''ABCDEFGHIJKLMNOPQRTUVWXYZ''"
  shows "upperChar c = d \<longleftrightarrow> lowerChar c = lowerChar d"
proof
  assume "upperChar c = d"
  then have "lowerChar (upperChar c) = lowerChar d" by simp
  then show "lowerChar c = lowerChar d" by (simp add: lowerChar_upperChar)
next
  assume "lowerChar c = lowerChar d"
  then have "upperChar (lowerChar c) = upperChar (lowerChar d)" by simp
  with plainCapital_facts [OF assms] show "upperChar c = d"
    by (simp add: upperChar_lowerChar)
qed

lemma upperUnits_eq_plainCapital:
  assumes "d \<in> set ''ABCDEFGHIJKLMNOPQRTUVWXYZ''"
  shows "upperUnits c @ us = of_char d # vs \<longleftrightarrow> lowerChar c = lowerChar d \<and> us = vs"
proof -
  note f = plainCapital_facts [OF assms]
  consider "c = CHR 0xDF" | "c = CHR 0xB5" | "c = CHR 0xFF"
    | "c \<noteq> CHR 0xDF" "c \<noteq> CHR 0xB5" "c \<noteq> CHR 0xFF"
    by blast
  then show ?thesis
  proof cases
    case 1
    with f special_lowerChar show ?thesis by (auto simp: upperUnits_def)
  next
    case 2
    with f special_lowerChar show ?thesis by (auto simp: upperUnits_def)
  next
    case 3
    with f special_lowerChar show ?thesis by (auto simp: upperUnits_def)
  next
    case 4
    then show ?thesis
      by (simp add: upperUnits_def upperChar_eq_plainCapital [OF assms])
  qed
qed

lemma toUpperCase_eq_iff:
  assumes "set t \<subseteq> set ''ABCDEFGHIJKLMNOPQRTUVWXYZ''"
  shows "toUpperCase s = codeUnits t \<longleftrightarrow> equalIgnoreCase s t"
  using assms
proof (induction s arbitrary: t)
  case Nil
  then show ?case
    by (auto simp: toUpperCase_def codeUnits_def equalIgnoreCase_def toLowerCase_def)
next
  case (Cons c s)
  show ?case
  proof (cases t)
    case Nil
    have "upperUnits c \<noteq> []" by (simp add: upperUnits_def)
    with Nil show ?thesis
      by (simp add: toUpperCase_def codeUnits_def equalIgnoreCase_def toLowerCase_def)
  next
    case (Cons d t')
    with Cons.prems have d: "d \<in> set ''ABCDEFGHIJKLMNOPQRTUVWXYZ''"
      and t': "set t' \<subseteq> set ''ABCDEFGHIJKLMNOPQRTUVWXYZ''"
      by auto
    from Cons.IH [OF t'] have ih: "toUpperCase s = codeUnits t' \<longleftrightarrow> toLowerCase s = toLowerCase t'"
      by (simp add: equalIgnoreCase_def)
    have "toUpperCase (c # s) = codeUnits (d # t')
          \<longleftrightarrow> upperUnits c @ toUpperCase s = of_char d # codeUnits t'"
      by (simp add: toUpperCase_def codeUnits_def)
    also have "\<dots> \<longleftrightarrow> lowerChar c = lowerChar d \<and> toUpperCase s = codeUnits t'"
      by (rule upperUnits_eq_plainCapital [OF d])
    also have "\<dots> \<longleftrightarrow> toLowerCase (c # s) = toLowerCase (d # t')"
      by (simp add: ih toLowerCase_def)
    finally show ?thesis
      using Cons by (simp add: equalIgnoreCase_def)
  qed
qed

lemma toLowerCase_eq_iff:
  assumes "toLowerCase t = t"
  shows "toLowerCase s = t \<longleftrightarrow> equalIgnoreCase s t"
  using assms by (simp add: equalIgnoreCase_def)

section \<open>Model id normalisation: results\<close>

text \<open>
  C8, amended. For every non-empty string \<open>X\<close> that has no surrounding white space and
  does not carry the \<open>bedrock/\<close> prefix, normalising \<open>bedrock/ + X\<close> and normalising
  \<open>X\<close> both give exactly \<open>X\<close>; and normalising the empty string or a string of white
  space only gives the fixed default model id.
\<close>

theorem normalizeBedrockModel_prefix_agrees:
  "(X \<noteq> [] \<and> trim X = X \<and> \<not> startsWith X ''bedrock/''
      \<longrightarrow> normalizeBedrockModel (''bedrock/'' @ X) = X \<and> normalizeBedrockModel X = X)
   \<and> ((\<forall>c\<in>set s. isWhiteSpace c)
      \<longrightarrow> normalizeBedrockModel s = DEFAULT_BEDROCK_EMBEDDING_MODEL)"
proof (intro conjI impI)
  assume h: "X \<noteq> [] \<and> trim X = X \<and> \<not> startsWith X ''bedrock/''"
  have "\<not> isWhiteSpace (hd ''bedrock/'')" by (simp add: isWhiteSpace_def)
  with h have "trim (''bedrock/'' @ X) = ''bedrock/'' @ X"
    by (intro trim_prefixed) simp_all
  then show "normalizeBedrockModel (''bedrock/'' @ X) = X"
    by (simp add: normalizeBedrockModel_def startsWith_def slice_def)
next
  assume h: "X \<noteq> [] \<and> trim X = X \<and> \<not> startsWith X ''bedrock/''"
  then show "normalizeBedrockModel X = X"
    by (simp add: normalizeBedrockModel_def)
next
  assume "\<forall>c\<in>set s. isWhiteSpace c"
  then show "normalizeBedrockModel s = DEFAULT_BEDROCK_EMBEDDING_MODEL"
    by (simp add: normalizeBedrockModel_def trim_all_white)
qed

theorem normalizeBedrockModel_prefix_agrees_witness:
  "normalizeBedrockModel ''bedrock/amazon.titan-embed-text-v2:0'' = ''amazon.titan-embed-text-v2:0''
   \<and> normalizeBedrockModel ''amazon.titan-embed-text-v2:0'' = ''amazon.titan-embed-text-v2:0''
   \<and> normalizeBedrockModel ''  '' = DEFAULT_BEDROCK_EMBEDDING_MODEL"
  using normalizeBedrockModel_prefix_agrees
    [of "''amazon.titan-embed-text-v2:0''" "''  ''"]
  by (simp add: string_defs)

text \<open>
  The claim as the specification words it, for every non-empty \<open>X\<close> without the prefix,
  fails on a string with surrounding white space: \<open>" a"\<close> is normalised to \<open>"a"\<close>.
\<close>

theorem normalizeBedrockModel_prefix_counterexample:
  "'' a'' \<noteq> [] \<and> \<not> startsWith '' a'' ''bedrock/''
   \<and> normalizeBedrockModel '' a'' = ''a'' \<and> normalizeBedrockModel '' a'' \<noteq> '' a''"
  by (simp add: normalizeBedrockModel_def string_defs)

section \<open>Response parsing: results\<close>

lemma parseNova2Response_not_null:
  "parsed \<noteq> JNull \<Longrightarrow>
   parseNova2Response parsed = Inr (case embeddingAt parsed of Some v \<Rightarrow> v | None \<Rightarrow> JArr [])"
proof (cases parsed)
  case (JObj kvs)
  show ?thesis
  proof (cases "map_of (rev kvs) ''embeddings''")
    case None
    with JObj show ?thesis by (simp add: parseNova2Response_def embeddingAt_def)
  next
    case (Some es)
    show ?thesis
    proof (cases "es = JNull")
      case True
      with JObj Some show ?thesis by (simp add: parseNova2Response_def embeddingAt_def)
    next
      case False
      then have oc: "\<And>f. optChain (Some es) f = f es" by (cases es) simp_all
      show ?thesis
      proof (cases "getIndex0 es")
        case None
        with JObj Some oc show ?thesis by (simp add: parseNova2Response_def embeddingAt_def)
      next
        case (Some e)
        note e = this
        show ?thesis
        proof (cases "e = JNull")
          case True
          with JObj \<open>map_of (rev kvs) ''embeddings'' = Some es\<close> oc e show ?thesis
            by (simp add: parseNova2Response_def embeddingAt_def)
        next
          case False
          then have oc2: "\<And>f. optChain (Some e) f = f e" by (cases e) simp_all
          have nl: "\<And>w d. nullish w d = (case w of None \<Rightarrow> d | Some JNull \<Rightarrow> d | Some v \<Rightarrow> v)"
            subgoal for w d by (cases w; cases "the w") simp_all
            done
          from JObj \<open>map_of (rev kvs) ''embeddings'' = Some es\<close> oc e oc2 show ?thesis
            by (simp add: parseNova2Response_def embeddingAt_def nl split: option.splits json.splits)
        qed
      qed
    qed
  qed
qed (simp_all add: parseNova2Response_def embeddingAt_def)

text \<open>
  C1, amended. The response handling of \<open>embedQuery\<close> does not raise on a body that
  decodes to a JSON value other than \<open>null\<close>: it returns the value found at
  \<open>embeddings[0].embedding\<close> when every step of that path exists and the value is not
  \<open>null\<close>, and the empty vector otherwise. A body that decodes to \<open>null\<close> raises a
  \<open>TypeError\<close>, and the error of a body that does not decode is raised to the caller.
\<close>

theorem embedSingleResponse_outcomes:
  "(jsonParse responseBody = Inr parsed \<and> parsed \<noteq> JNull \<longrightarrow>
      embedSingleResponse jsonParse responseBody =
        Inr (case embeddingAt parsed of Some v \<Rightarrow> v | None \<Rightarrow> JArr []))
   \<and> (jsonParse responseBody = Inr JNull \<longrightarrow>
        embedSingleResponse jsonParse responseBody = Inl TypeError)
   \<and> (jsonParse responseBody = Inl e \<longrightarrow>
        embedSingleResponse jsonParse responseBody = Inl e)"
  by (simp add: embedSingleResponse_def parseNova2Response_not_null)
     (simp add: parseNova2Response_def)

theorem embedSingleResponse_outcomes_witness:
  "embedSingleResponse exampleJsonParse ''{}'' = Inr (JArr [])
   \<and> embedSingleResponse exampleJsonParse ''null'' = Inl TypeError
   \<and> embedSingleResponse exampleJsonParse ''<html>'' = Inl SyntaxError"
  using
    embedSingleResponse_outcomes [of exampleJsonParse "''{}''" "JObj []" SyntaxError]
    embedSingleResponse_outcomes [of exampleJsonParse "''null''" JNull SyntaxError]
    embedSingleResponse_outcomes [of exampleJsonParse "''<html>''" JNull SyntaxError]
  by (simp add: embeddingAt_def exampleJsonParse_def)

text \<open>
  The claim as the specification words it, that every decoded response without an
  embedding array gives the empty vector and never an error, fails on the decoded
  response \<open>null\<close>.
\<close>

theorem parseNova2Response_null_counterexample:
  "embeddingAt (JNull :: int json) = None
   \<and> parseNova2Response (JNull :: int json) = Inl TypeError
   \<and> parseNova2Response (JNull :: int json) \<noteq> Inr (JArr [])"
  by (simp add: embeddingAt_def parseNova2Response_def)

section \<open>Filtering a summary: results\<close>

lemma includesTextModalities_iff:
  "includesTextModalities modalities \<longleftrightarrow>
     (\<exists>entry \<in> set (case modalities of None \<Rightarrow> [] | Some ms \<Rightarrow> ms). equalIgnoreCase entry ''text'')"
proof -
  have "toLowerCase ''text'' = ''text''" by (simp add: string_defs)
  then show ?thesis
    by (simp add: includesTextModalities_def list_ex_iff toLowerCase_eq_iff)
qed

lemma isActive_iff:
  "isActive summary \<longleftrightarrow>
     (\<exists>lifecycle st. modelLifecycle summary = Some lifecycle \<and> status lifecycle = Some st
        \<and> equalIgnoreCase st ''ACTIVE'')"
proof -
  have "set ''ACTIVE'' \<subseteq> set ''ABCDEFGHIJKLMNOPQRTUVWXYZ''" by simp
  then have "\<And>st. toUpperCase st = codeUnits ''ACTIVE'' \<longleftrightarrow> equalIgnoreCase st ''ACTIVE''"
    by (rule toUpperCase_eq_iff)
  then show ?thesis
    by (simp add: isActive_def split: option.splits)
qed

lemma truthy_trimmed_id:
  "truthy (map_option trim (modelId summary)) \<longleftrightarrow> (\<exists>m. modelId summary = Some m \<and> trim m \<noteq> [])"
  by (cases "modelId summary") (simp_all add: truthy_def)

lemma splitDot_takeWhile:
  "splitDot m = takeWhile (\<lambda>c. c \<noteq> CHR ''.'') m # tl (splitDot m)"
  by (induction m) (auto split: list.splits)

text \<open>
  C9. Under a non-empty provider filter, a summary without a provider name is matched
  on the part of its model id before the first dot, trimmed and in lower case; it is
  excluded when it has no model id or when that part is blank.
\<close>

theorem matchesProviderFilter_fallback:
  "filter' \<noteq> [] \<and> providerName summary = None \<longrightarrow>
     matchesProviderFilter summary filter' =
       (case modelId summary of
          None \<Rightarrow> False
        | Some m \<Rightarrow>
            toLowerCase (trim (takeWhile (\<lambda>c. c \<noteq> CHR ''.'') m)) \<noteq> []
            \<and> toLowerCase (trim (takeWhile (\<lambda>c. c \<noteq> CHR ''.'') m)) \<in> set filter')"
proof (cases "modelId summary")
  case None
  then show ?thesis by (simp add: matchesProviderFilter_def)
next
  case (Some m)
  then show ?thesis
    using splitDot_takeWhile [of m]
    by (auto simp: matchesProviderFilter_def split: list.splits)
qed

theorem matchesProviderFilter_fallback_witness:
  "matchesProviderFilter
     \<lparr>modelId = Some ''Amazon.nova-pro-v1:0'', modelName = None, providerName = None,
      inputModalities = None, outputModalities = None, responseStreamingSupported = None,
      modelLifecycle = None\<rparr> [''amazon'', ''anthropic'']
   \<and> \<not> matchesProviderFilter
     \<lparr>modelId = Some '' .nova-pro-v1:0'', modelName = None, providerName = None,
      inputModalities = None, outputModalities = None, responseStreamingSupported = None,
      modelLifecycle = None\<rparr> [''amazon'', ''anthropic'']"
  using matchesProviderFilter_fallback
    [of "[''amazon'', ''anthropic'']"
        "\<lparr>modelId = Some ''Amazon.nova-pro-v1:0'', modelName = None, providerName = None,
          inputModalities = None, outputModalities = None, responseStreamingSupported = None,
          modelLifecycle = None\<rparr>"]
    matchesProviderFilter_fallback
    [of "[''amazon'', ''anthropic'']"
        "\<lparr>modelId = Some '' .nova-pro-v1:0'', modelName = None, providerName = None,
          inputModalities = None, outputModalities = None, responseStreamingSupported = None,
          modelLifecycle = None\<rparr>"]
  by (simp add: string_defs)


section \<open>The inference-profile map: results\<close>







lemma profilePages_rejected:
  "send t = Inl e \<Longrightarrow> profilePages send t m = Some m"
  by (subst profilePages.simps) simp

lemma profilePages_page:
  "send t = Inr response \<Longrightarrow> truthy (nextToken response) \<Longrightarrow>
   profilePages send t m = profilePages send (nextToken response) (addPage m response)"
  by (subst profilePages.simps) simp

lemma profilePages_last:
  "send t = Inr response \<Longrightarrow> \<not> truthy (nextToken response) \<Longrightarrow>
   profilePages send t m = Some (addPage m response)"
  by (subst profilePages.simps) simp

lemma pagesRead_then_rejected:
  "pagesRead send t m t' m' \<Longrightarrow> send t' = Inl e \<Longrightarrow> profilePages send t m = Some m'"
  by (induction rule: pagesRead.induct) (simp_all add: profilePages_rejected profilePages_page)

lemma addPage_exampleProfilePage:
  "addPage Map.empty exampleProfilePage
     = [''anthropic.claude-3-haiku'' \<mapsto> ''us.anthropic.claude-3-haiku'']"
  by (simp add: exampleProfilePage_def addPage_def addProfile_def addModelRef_def
      Let_def indexOf_def string_defs)

lemma buildInferenceProfileMap_secondPageRejected:
  "buildInferenceProfileMap secondPageRejected
     = Some [''anthropic.claude-3-haiku'' \<mapsto> ''us.anthropic.claude-3-haiku'']"
proof -
  have "profilePages secondPageRejected None Map.empty
          = profilePages secondPageRejected (Some ''page-2'')
              (addPage Map.empty exampleProfilePage)"
    using profilePages_page [of secondPageRejected None exampleProfilePage Map.empty]
    by (simp add: secondPageRejected_def exampleProfilePage_def truthy_def)
  also have "\<dots> = Some (addPage Map.empty exampleProfilePage)"
    by (rule profilePages_rejected [of _ _ RequestFailed]) (simp add: secondPageRejected_def)
  finally show ?thesis
    by (simp add: buildInferenceProfileMap_def addPage_exampleProfilePage)
qed

lemma buildInferenceProfileMap_firstPageRejected:
  "buildInferenceProfileMap firstPageRejected = Some Map.empty"
  by (simp add: buildInferenceProfileMap_def firstPageRejected_def profilePages_rejected)

text \<open>
  C5, amended. Building the inference-profile map is not fatal: when a request of the
  paginated listing is rejected, the rejection is swallowed, the map is the one built
  from the pages read before that request, and discovery goes on with it; the map is
  empty when the first request is the one rejected.
\<close>

theorem buildInferenceProfileMap_failure_swallowed:
  "(pagesRead send None Map.empty t m \<and> send t = Inl e \<longrightarrow>
      buildInferenceProfileMap send = Some m
      \<and> discoveryPromise localeCompare (Inr response) send flt cw mt =
          Some (Inr (toSortedByName localeCompare
                       (fst (emitAll flt cw mt m
                               (case modelSummaries response of None \<Rightarrow> [] | Some ss \<Rightarrow> ss))))))
   \<and> (send None = Inl e \<longrightarrow> buildInferenceProfileMap send = Some Map.empty)"
proof (intro conjI impI)
  assume a: "pagesRead send None Map.empty t m \<and> send t = Inl e"
  then show b: "buildInferenceProfileMap send = Some m"
    using pagesRead_then_rejected [of send None Map.empty t m e]
    by (simp add: buildInferenceProfileMap_def)
  then show "discoveryPromise localeCompare (Inr response) send flt cw mt =
          Some (Inr (toSortedByName localeCompare
                       (fst (emitAll flt cw mt m
                               (case modelSummaries response of None \<Rightarrow> [] | Some ss \<Rightarrow> ss)))))"
    by (simp add: discoveryPromise_def)
next
  assume "send None = Inl e"
  then show "buildInferenceProfileMap send = Some Map.empty"
    by (simp add: buildInferenceProfileMap_def profilePages_rejected)
qed

theorem buildInferenceProfileMap_failure_swallowed_witness:
  "buildInferenceProfileMap secondPageRejected = Some (addPage Map.empty exampleProfilePage)
   \<and> discoveryPromise (\<lambda>a b. 0) (Inr \<lparr>modelSummaries = Some [exampleSummary]\<rparr>)
       secondPageRejected [] 32000 4096 =
       Some (Inr (toSortedByName (\<lambda>a b. 0)
                    (fst (emitAll [] 32000 4096 (addPage Map.empty exampleProfilePage)
                            [exampleSummary]))))
   \<and> buildInferenceProfileMap firstPageRejected = Some Map.empty"
proof -
  have "pagesRead secondPageRejected (nextToken exampleProfilePage)
          (addPage Map.empty exampleProfilePage) (Some ''page-2'')
          (addPage Map.empty exampleProfilePage)"
    by (simp add: exampleProfilePage_def pagesRead_none)
  then have r: "pagesRead secondPageRejected None Map.empty (Some ''page-2'')
                  (addPage Map.empty exampleProfilePage)"
    by (rule pagesRead_page [rotated 2])
       (simp_all add: secondPageRejected_def exampleProfilePage_def truthy_def)
  have f: "secondPageRejected (Some ''page-2'') = Inl RequestFailed"
    by (simp add: secondPageRejected_def)
  have g: "firstPageRejected None = Inl RequestFailed"
    by (simp add: firstPageRejected_def)
  from buildInferenceProfileMap_failure_swallowed
         [of secondPageRejected "Some ''page-2''" "addPage Map.empty exampleProfilePage"
             RequestFailed "\<lambda>a b. 0" "\<lparr>modelSummaries = Some [exampleSummary]\<rparr>"
             "[]" 32000 4096]
       buildInferenceProfileMap_failure_swallowed
         [of firstPageRejected "Some ''page-2''" "addPage Map.empty exampleProfilePage"
             RequestFailed "\<lambda>a b. 0" "\<lparr>modelSummaries = Some [exampleSummary]\<rparr>"
             "[]" 32000 4096]
       r f g
  show ?thesis by simp
qed

text \<open>
  The claim as the specification words it, an empty map after a failure at any point,
  fails when the first page has been read and the request for the second page is
  rejected: the entries of the first page stay in the map.
\<close>

theorem buildInferenceProfileMap_partial_counterexample:
  "secondPageRejected (Some ''page-2'') = Inl RequestFailed
   \<and> buildInferenceProfileMap secondPageRejected
       = Some [''anthropic.claude-3-haiku'' \<mapsto> ''us.anthropic.claude-3-haiku'']
   \<and> buildInferenceProfileMap secondPageRejected \<noteq> Some Map.empty"
proof -
  have "[''anthropic.claude-3-haiku'' \<mapsto> ''us.anthropic.claude-3-haiku''] ''anthropic.claude-3-haiku''
          \<noteq> (Map.empty :: string \<rightharpoonup> string) ''anthropic.claude-3-haiku''"
    by simp
  then have "[''anthropic.claude-3-haiku'' \<mapsto> ''us.anthropic.claude-3-haiku'']
          \<noteq> (Map.empty :: string \<rightharpoonup> string)"
    by metis
  with buildInferenceProfileMap_secondPageRejected show ?thesis
    by (simp add: secondPageRejected_def)
qed

section \<open>Emitted definitions: results\<close>


lemma emitAll_snoc:
  "emitAll flt cw mt pm (before @ [summary]) =
     emitSummary flt cw mt pm (emitAll flt cw mt pm before) summary"
  by (simp add: emitAll_def)




section \<open>Exclusion from the discovery result: results\<close>

lemma matchesProviderFilter_iff:
  "matchesProviderFilter summary flt \<longleftrightarrow>
     flt = [] \<or>
     (case providerName summary of
        Some p \<Rightarrow> toLowerCase (trim p) \<noteq> [] \<and> toLowerCase (trim p) \<in> set flt
      | None \<Rightarrow>
          (case modelId summary of
             None \<Rightarrow> False
           | Some m \<Rightarrow>
               toLowerCase (trim (takeWhile (\<lambda>c. c \<noteq> CHR ''.'') m)) \<noteq> []
               \<and> toLowerCase (trim (takeWhile (\<lambda>c. c \<noteq> CHR ''.'') m)) \<in> set flt))"
proof (cases "providerName summary")
  case (Some p)
  then show ?thesis by (simp add: matchesProviderFilter_def)
next
  case None
  show ?thesis
  proof (cases "modelId summary")
    case None
    with \<open>providerName summary = None\<close> show ?thesis
      by (simp add: matchesProviderFilter_def)
  next
    case (Some m)
    with \<open>providerName summary = None\<close> show ?thesis
      using splitDot_takeWhile [of m]
      by (auto simp: matchesProviderFilter_def split: list.splits)
  qed
qed

lemma shouldIncludeSummary_discarded:
  "shouldIncludeSummary summary flt \<longleftrightarrow> \<not> discardedBySpecification summary flt"
  unfolding shouldIncludeSummary_def discardedBySpecification_def truthy_trimmed_id
    includesTextModalities_iff isActive_iff matchesProviderFilter_iff
  by (auto simp: list_ex_iff split: option.splits)

lemma emitSummary_discarded:
  "\<not> shouldIncludeSummary summary flt \<Longrightarrow> emitSummary flt cw mt pm acc summary = acc"
  by (simp add: emitSummary_def Let_def)

lemma emitSummary_included:
  "shouldIncludeSummary summary flt \<Longrightarrow>
   \<exists>more. fst (emitSummary flt cw mt pm acc summary) =
            fst acc @ toModelDefinition summary cw mt (pm (baseIdOf summary)) # more"
  by (simp add: emitSummary_def Let_def)

lemma foldl_emitSummary_extends:
  "\<exists>more. fst (foldl (emitSummary flt cw mt pm) acc summaries) = fst acc @ more"
proof (induction summaries arbitrary: acc)
  case Nil
  show ?case by simp
next
  case (Cons summary summaries)
  have "\<exists>more. fst (emitSummary flt cw mt pm acc summary) = fst acc @ more"
    by (cases "shouldIncludeSummary summary flt")
       (use emitSummary_included [of summary flt cw mt pm acc] in
         \<open>auto simp: emitSummary_discarded\<close>)
  then obtain m1 where m1: "fst (emitSummary flt cw mt pm acc summary) = fst acc @ m1" ..
  from Cons [of "emitSummary flt cw mt pm acc summary"] obtain m2 where
    "fst (foldl (emitSummary flt cw mt pm) (emitSummary flt cw mt pm acc summary) summaries)
       = fst (emitSummary flt cw mt pm acc summary) @ m2" ..
  with m1 show ?case by simp
qed

lemma emitAll_split:
  "emitAll flt cw mt pm (before @ summary # after) =
     foldl (emitSummary flt cw mt pm)
       (emitSummary flt cw mt pm (emitAll flt cw mt pm before) summary) after"
  by (simp add: emitAll_def)

lemma emitAll_append:
  "emitAll flt cw mt pm (before @ after) =
     foldl (emitSummary flt cw mt pm) (emitAll flt cw mt pm before) after"
  by (simp add: emitAll_def)

lemma set_insertSorted: "set (insertSorted cmp a bs) = insert a (set bs)"
  by (induction bs) auto

lemma set_foldl_insertSorted:
  "set (foldl (\<lambda>acc a. insertSorted cmp a acc) acc ds) = set acc \<union> set ds"
  by (induction ds arbitrary: acc) (simp_all add: set_insertSorted)

lemma set_toSortedByName: "set (toSortedByName cmp ds) = set ds"
  by (simp add: toSortedByName_def set_foldl_insertSorted)

text \<open>
  C6. A model summary of the foundation-model listing is excluded from the discovery
  result if and only if it has no non-blank model id, or fails the provider-name
  filter, or its response-streaming-supported flag is not \<open>true\<close>, or its output
  modalities do not include \<open>text\<close> up to letter case, or its lifecycle status is not
  \<open>ACTIVE\<close> up to letter case. The loop over the listing leaves the list of definitions
  as it is on exactly these summaries; the result of discovery is the same with and
  without such a summary in the listing; and the definition of any other summary is
  in the result of discovery.
\<close>

theorem discovery_excludes_summary_iff:
  "(fst (emitAll flt cw mt profileMap (before @ [summary]))
      = fst (emitAll flt cw mt profileMap before)
      \<longleftrightarrow> discardedBySpecification summary flt)
   \<and> (discardedBySpecification summary flt \<longrightarrow>
        discoveryPromise localeCompare (Inr \<lparr>modelSummaries = Some (before @ summary # after)\<rparr>)
          sendProfiles flt cw mt
        = discoveryPromise localeCompare (Inr \<lparr>modelSummaries = Some (before @ after)\<rparr>)
            sendProfiles flt cw mt)
   \<and> (\<not> discardedBySpecification summary flt
       \<and> buildInferenceProfileMap sendProfiles = Some profileMap \<longrightarrow>
        (\<exists>result.
           discoveryPromise localeCompare
             (Inr \<lparr>modelSummaries = Some (before @ summary # after)\<rparr>) sendProfiles flt cw mt
             = Some (Inr result)
           \<and> toModelDefinition summary cw mt (profileMap (baseIdOf summary)) \<in> set result))"
proof (intro conjI impI)
  show "fst (emitAll flt cw mt profileMap (before @ [summary]))
          = fst (emitAll flt cw mt profileMap before)
        \<longleftrightarrow> discardedBySpecification summary flt"
  proof (cases "shouldIncludeSummary summary flt")
    case False
    then show ?thesis
      by (simp add: emitAll_snoc emitSummary_discarded shouldIncludeSummary_discarded)
  next
    case True
    from emitSummary_included [OF True, of cw mt profileMap "emitAll flt cw mt profileMap before"]
    obtain more where
      "fst (emitAll flt cw mt profileMap (before @ [summary])) =
         fst (emitAll flt cw mt profileMap before)
           @ toModelDefinition summary cw mt (profileMap (baseIdOf summary)) # more"
      by (auto simp: emitAll_snoc)
    then have "fst (emitAll flt cw mt profileMap (before @ [summary]))
                 \<noteq> fst (emitAll flt cw mt profileMap before)"
      by simp
    with True show ?thesis by (simp add: shouldIncludeSummary_discarded)
  qed
next
  assume "discardedBySpecification summary flt"
  then have "\<not> shouldIncludeSummary summary flt"
    by (simp add: shouldIncludeSummary_discarded)
  then have "\<And>pm. emitAll flt cw mt pm (before @ summary # after)
                  = emitAll flt cw mt pm (before @ after)"
    by (simp add: emitAll_split emitAll_append emitSummary_discarded)
  then show "discoveryPromise localeCompare
               (Inr \<lparr>modelSummaries = Some (before @ summary # after)\<rparr>) sendProfiles flt cw mt
             = discoveryPromise localeCompare
                 (Inr \<lparr>modelSummaries = Some (before @ after)\<rparr>) sendProfiles flt cw mt"
    by (simp add: discoveryPromise_def split: option.splits)
next
  assume a: "\<not> discardedBySpecification summary flt
             \<and> buildInferenceProfileMap sendProfiles = Some profileMap"
  then have inc: "shouldIncludeSummary summary flt"
    by (simp add: shouldIncludeSummary_discarded)
  let ?d = "toModelDefinition summary cw mt (profileMap (baseIdOf summary))"
  from emitSummary_included [OF inc, of cw mt profileMap "emitAll flt cw mt profileMap before"]
  obtain m1 where m1:
    "fst (emitSummary flt cw mt profileMap (emitAll flt cw mt profileMap before) summary)
       = fst (emitAll flt cw mt profileMap before) @ ?d # m1" ..
  from foldl_emitSummary_extends
         [of flt cw mt profileMap
             "emitSummary flt cw mt profileMap (emitAll flt cw mt profileMap before) summary"
             after]
  obtain m2 where
    "fst (emitAll flt cw mt profileMap (before @ summary # after))
       = fst (emitSummary flt cw mt profileMap (emitAll flt cw mt profileMap before) summary)
           @ m2"
    by (auto simp: emitAll_split)
  with m1 have "?d \<in> set (fst (emitAll flt cw mt profileMap (before @ summary # after)))"
    by simp
  with a show "\<exists>result.
           discoveryPromise localeCompare
             (Inr \<lparr>modelSummaries = Some (before @ summary # after)\<rparr>) sendProfiles flt cw mt
             = Some (Inr result)
           \<and> ?d \<in> set result"
    by (simp add: discoveryPromise_def set_toSortedByName)
qed

theorem discovery_excludes_summary_iff_witness:
  "discardedBySpecification exampleLegacySummary [''anthropic'']
   \<and> \<not> discardedBySpecification exampleSummary [''anthropic'']
   \<and> discoveryPromise (\<lambda>a b. 0)
       (Inr \<lparr>modelSummaries = Some ([exampleSummary] @ exampleLegacySummary # [])\<rparr>)
       firstPageRejected [''anthropic''] 32000 4096
     = Some (Inr [toModelDefinition exampleSummary 32000 4096 None])
   \<and> fst (emitAll [''anthropic''] 32000 4096 Map.empty ([exampleSummary] @ [exampleLegacySummary]))
     = fst (emitAll [''anthropic''] 32000 4096 Map.empty [exampleSummary])"
proof -
  have d1: "discardedBySpecification exampleLegacySummary [''anthropic'']"
    by (simp add: discardedBySpecification_def exampleLegacySummary_def equalIgnoreCase_def
        string_defs)
  have d2: "\<not> discardedBySpecification exampleSummary [''anthropic'']"
    by (simp add: discardedBySpecification_def exampleSummary_def equalIgnoreCase_def
        string_defs)
  then have inc: "shouldIncludeSummary exampleSummary [''anthropic'']"
    by (simp add: shouldIncludeSummary_discarded)
  have e: "fst (emitAll [''anthropic''] 32000 4096 Map.empty [exampleSummary])
             = [toModelDefinition exampleSummary 32000 4096 None]"
    using inc by (simp add: emitAll_def emitSummary_def Let_def truthy_def)
  from discovery_excludes_summary_iff
         [of "[''anthropic'']" 32000 4096 Map.empty "[exampleSummary]" exampleLegacySummary
             "\<lambda>a b. 0" "[]" firstPageRejected]
       d1
  have r: "fst (emitAll [''anthropic''] 32000 4096 Map.empty
                  ([exampleSummary] @ [exampleLegacySummary]))
             = fst (emitAll [''anthropic''] 32000 4096 Map.empty [exampleSummary])
           \<and> discoveryPromise (\<lambda>a b. 0)
               (Inr \<lparr>modelSummaries = Some ([exampleSummary] @ exampleLegacySummary # [])\<rparr>)
               firstPageRejected [''anthropic''] 32000 4096
             = discoveryPromise (\<lambda>a b. 0)
                 (Inr \<lparr>modelSummaries = Some ([exampleSummary] @ [])\<rparr>)
                 firstPageRejected [''anthropic''] 32000 4096"
    by blast
  have "discoveryPromise (\<lambda>a b. 0) (Inr \<lparr>modelSummaries = Some ([exampleSummary] @ [])\<rparr>)
          firstPageRejected [''anthropic''] 32000 4096
        = Some (Inr [toModelDefinition exampleSummary 32000 4096 None])"
    by (simp add: discoveryPromise_def buildInferenceProfileMap_firstPageRejected e
        toSortedByName_def)
  with r d1 d2 show ?thesis by simp
qed

section \<open>The cache key: results\<close>

lemma trim_toLowerCase: "trim (toLowerCase s) = toLowerCase (trim s)"
proof -
  have c: "isWhiteSpace \<circ> lowerChar = isWhiteSpace"
    by (rule ext) (simp add: isWhiteSpace_lowerChar)
  show ?thesis
    by (simp add: trim_def trimStart_def trimEnd_def toLowerCase_def dropWhile_map rev_map c)
qed

lemma setFrom_acc:
  "set (foldl (\<lambda>acc x. if x \<in> set acc then acc else acc @ [x]) acc xs) = set acc \<union> set xs
   \<and> (distinct acc \<longrightarrow>
        distinct (foldl (\<lambda>acc x. if x \<in> set acc then acc else acc @ [x]) acc xs))"
  by (induction xs arbitrary: acc) auto

lemma set_setFrom: "set (setFrom xs) = set xs"
  using setFrom_acc [of "[]" xs] by (simp add: setFrom_def)

lemma distinct_setFrom: "distinct (setFrom xs)"
  using setFrom_acc [of "[]" xs] by (simp add: setFrom_def)

lemma normalizeProviderFilter_entries:
  "normalizeProviderFilter (Some f) = sorted_list_of_set (normalizedEntries f)"
proof -
  let ?xs = "filter (\<lambda>entry. length entry > 0) (map (\<lambda>entry. toLowerCase (trim entry)) f)"
  have s: "set ?xs = normalizedEntries f"
    by (auto simp: normalizedEntries_def)
  have "sort (setFrom ?xs) = sorted_list_of_set (set (setFrom ?xs))"
    by (simp add: sorted_list_of_set_sort_remdups distinct_remdups_id distinct_setFrom)
  also have "set (setFrom ?xs) = normalizedEntries f"
    unfolding set_setFrom by (rule s)
  finally have "sort (setFrom ?xs) = sorted_list_of_set (normalizedEntries f)" .
  moreover have "f = [] \<Longrightarrow> sorted_list_of_set (normalizedEntries f) = []"
    by (simp add: normalizedEntries_def)
  ultimately show ?thesis
    by (simp add: normalizeProviderFilter_def)
qed

lemma samePresentation_entries:
  "samePresentation f g \<Longrightarrow> normalizedEntries f = normalizedEntries g"
proof (induction rule: samePresentation.induct)
  case (order f g)
  then have "set f = set g" by (rule mset_eq_setD)
  then show ?case by (simp add: normalizedEntries_def)
next
  case (letterCase a b f g)
  then have "toLowerCase (trim a) = toLowerCase (trim b)"
    by (simp add: equalIgnoreCase_def trim_toLowerCase [symmetric])
  then show ?case by (simp add: normalizedEntries_def)
next
  case (duplicate a f g)
  then show ?case by (auto simp: normalizedEntries_def)
next
  case (blank a f g)
  then show ?case by (auto simp: normalizedEntries_def toLowerCase_def)
qed (simp_all add: normalizedEntries_def)

text \<open>
  C10. Two calls whose provider filters differ only in presentation (order of the
  entries, letter case, surrounding white space, duplicates, blank entries) and that
  agree on the region, the refresh interval, the default context window and the default
  maximum of tokens derive the same cache key, and so read and write the same cache
  entry.
\<close>

theorem cacheKeyOf_presentation_invariant:
  "samePresentation f g
   \<and> region p1 = region p2 \<and> config p1 = Some c1 \<and> config p2 = Some c2
   \<and> providerFilter c1 = Some f \<and> providerFilter c2 = Some g
   \<and> refreshInterval c1 = refreshInterval c2
   \<and> defaultContextWindow c1 = defaultContextWindow c2
   \<and> defaultMaxTokens c1 = defaultMaxTokens c2
   \<longrightarrow> normalizeProviderFilter (Some f) = normalizeProviderFilter (Some g)
       \<and> cacheKeyOf stringify p1 = cacheKeyOf stringify p2
       \<and> discoveryCache s (cacheKeyOf stringify p1) = discoveryCache s (cacheKeyOf stringify p2)"
proof (intro impI, elim conjE)
  assume sp: "samePresentation f g"
    and eqs: "region p1 = region p2" "config p1 = Some c1" "config p2 = Some c2"
      "providerFilter c1 = Some f" "providerFilter c2 = Some g"
      "refreshInterval c1 = refreshInterval c2"
      "defaultContextWindow c1 = defaultContextWindow c2"
      "defaultMaxTokens c1 = defaultMaxTokens c2"
  from sp have n: "normalizeProviderFilter (Some f) = normalizeProviderFilter (Some g)"
    by (simp add: normalizeProviderFilter_entries samePresentation_entries)
  with eqs have k: "cacheKeyOf stringify p1 = cacheKeyOf stringify p2"
    by (simp add: cacheKeyOf_def buildCacheKey_def providerFilterOf_def
        refreshIntervalSecondsOf_def resolveDefaultContextWindow_def
        resolveDefaultMaxTokens_def)
  from n k show "normalizeProviderFilter (Some f) = normalizeProviderFilter (Some g)
       \<and> cacheKeyOf stringify p1 = cacheKeyOf stringify p2
       \<and> discoveryCache s (cacheKeyOf stringify p1) = discoveryCache s (cacheKeyOf stringify p2)"
    by simp
qed

theorem cacheKeyOf_presentation_invariant_witness:
  "normalizeProviderFilter (Some ['' Anthropic'', ''amazon'']) = [''amazon'', ''anthropic'']
   \<and> normalizeProviderFilter (Some [''amazon'', ''anthropic'', ''AMAZON'', ''  ''])
       = [''amazon'', ''anthropic'']
   \<and> cacheKeyOf exampleStringify
        \<lparr>region = ''us-east-1'',
         config = Some \<lparr>refreshInterval = None,
                        providerFilter = Some ['' Anthropic'', ''amazon''],
                        defaultContextWindow = None, defaultMaxTokens = None\<rparr>,
         now = 0\<rparr>
     = cacheKeyOf exampleStringify
        \<lparr>region = ''us-east-1'',
         config = Some \<lparr>refreshInterval = None,
                        providerFilter = Some [''amazon'', ''anthropic'', ''AMAZON'', ''  ''],
                        defaultContextWindow = None, defaultMaxTokens = None\<rparr>,
         now = 5\<rparr>"
proof -
  have 1: "samePresentation [''  '', ''AMAZON'', ''amazon'', ''anthropic''] [''AMAZON'', ''amazon'', ''anthropic'']"
    using samePresentation.blank [of "''  ''" "[]" "[''AMAZON'', ''amazon'', ''anthropic'']"]
    by (simp add: string_defs)
  have 2: "samePresentation [''AMAZON'', ''amazon'', ''anthropic''] [''amazon'', ''amazon'', ''anthropic'']"
    using samePresentation.letterCase [of "''AMAZON''" "''amazon''" "[]" "[''amazon'', ''anthropic'']"]
    by (simp add: equalIgnoreCase_def string_defs)
  have 3: "samePresentation [''amazon'', ''amazon'', ''anthropic''] [''amazon'', ''anthropic'']"
    using samePresentation.duplicate [of "''amazon''" "[]" "[''amazon'', ''anthropic'']"]
    by simp
  have 4: "samePresentation [''amazon'', ''anthropic''] [''anthropic'', ''amazon'']"
    by (rule samePresentation.order) simp
  have 5: "samePresentation [''anthropic'', ''amazon''] [''Anthropic'', ''amazon'']"
    using samePresentation.letterCase [of "''anthropic''" "''Anthropic''" "[]" "[''amazon'']"]
    by (simp add: equalIgnoreCase_def string_defs)
  have 6: "samePresentation [''Anthropic'', ''amazon''] ['' Anthropic'', ''amazon'']"
    using samePresentation.whitespace [of "''Anthropic''" "'' Anthropic''" "[]" "[''amazon'']"]
    by (simp add: string_defs)
  have 0: "samePresentation [''amazon'', ''anthropic'', ''AMAZON'', ''  ''] [''  '', ''AMAZON'', ''amazon'', ''anthropic'']"
    by (rule samePresentation.order) simp
  have sp: "samePresentation [''amazon'', ''anthropic'', ''AMAZON'', ''  ''] ['' Anthropic'', ''amazon'']"
    by (rule samePresentation.trans [OF 0] samePresentation.trans [OF 1] samePresentation.trans [OF 2]
        samePresentation.trans [OF 3] samePresentation.trans [OF 4] samePresentation.trans [OF 5])+
       (rule 6)
  have n: "normalizeProviderFilter (Some ['' Anthropic'', ''amazon'']) = [''amazon'', ''anthropic'']"
    by (simp add: normalizeProviderFilter_def setFrom_def string_defs)
  from cacheKeyOf_presentation_invariant
    [of "[''amazon'', ''anthropic'', ''AMAZON'', ''  '']" "['' Anthropic'', ''amazon'']"
        "\<lparr>region = ''us-east-1'',
         config = Some \<lparr>refreshInterval = None,
                        providerFilter = Some [''amazon'', ''anthropic'', ''AMAZON'', ''  ''],
                        defaultContextWindow = None, defaultMaxTokens = None\<rparr>,
         now = 5\<rparr>"
        "\<lparr>region = ''us-east-1'',
         config = Some \<lparr>refreshInterval = None,
                        providerFilter = Some ['' Anthropic'', ''amazon''],
                        defaultContextWindow = None, defaultMaxTokens = None\<rparr>,
         now = 0\<rparr>"
        "\<lparr>refreshInterval = None,
                        providerFilter = Some [''amazon'', ''anthropic'', ''AMAZON'', ''  ''],
                        defaultContextWindow = None, defaultMaxTokens = None\<rparr>"
        "\<lparr>refreshInterval = None,
                        providerFilter = Some ['' Anthropic'', ''amazon''],
                        defaultContextWindow = None, defaultMaxTokens = None\<rparr>"
        exampleStringify initialState] sp n
  show ?thesis by simp
qed


section \<open>The cache: results\<close>

lemma interval_example: "refreshIntervalSecondsOf exampleParams = 3600"
  by (simp add: refreshIntervalSecondsOf_def exampleParams_def DEFAULT_REFRESH_INTERVAL_SECONDS_def)

lemma key_example: "cacheKeyOf exampleStringify exampleParams = ''us-east-1''"
  by (simp add: cacheKeyOf_def buildCacheKey_def exampleStringify_def exampleParams_def
      providerFilterOf_def normalizeProviderFilter_def)

lemma call_fresh:
  assumes "0 < refreshIntervalSecondsOf params"
    and "discoveryCache s (cacheKeyOf stringify params) = Some entry"
    and "cachedValue entry = Some v" and "now params < expiresAt entry"
  shows "discoverBedrockModels_call stringify params s = (ReturnedCached v, s)"
  using assms by (simp add: discoverBedrockModels_call_def Let_def)

lemma call_expired:
  assumes "0 < refreshIntervalSecondsOf params"
    and "discoveryCache s (cacheKeyOf stringify params) = Some entry"
    and "inFlight entry = None" and "expiresAt entry \<le> now params"
  shows "discoverBedrockModels_call stringify params s =
           (AwaitingFetch (fetchesStarted s),
            s\<lparr>fetchesStarted := Suc (fetchesStarted s),
              discoveryCache := (discoveryCache s)(cacheKeyOf stringify params \<mapsto>
                \<lparr>expiresAt = now params + refreshIntervalSecondsOf params * 1000,
                 cachedValue = None, inFlight = Some (fetchesStarted s)\<rparr>)\<rparr>)"
  using assms by (simp add: discoverBedrockModels_call_def Let_def)

lemma call_uncached:
  assumes "refreshIntervalSecondsOf params = 0"
  shows "discoverBedrockModels_call stringify params s =
           (AwaitingFetch (fetchesStarted s), s\<lparr>fetchesStarted := Suc (fetchesStarted s)\<rparr>)"
  using assms by (simp add: discoverBedrockModels_call_def Let_def)

lemma resume_uncached:
  assumes "refreshIntervalSecondsOf params = 0"
  shows "discoveryCache (snd (discoverBedrockModels_resume stringify params settled s))
           = discoveryCache s"
  using assms by (simp add: discoverBedrockModels_resume_def Let_def split: sum.splits)

text \<open>
  C3. With a refresh interval above zero, a call whose cache key has a cached value
  that expires strictly after the current time returns that value and starts no fetch;
  a call at or after the expiry of a cached value starts exactly one new fetch. With a
  refresh interval of zero a call starts a fresh fetch whatever the cache holds, and
  neither the call nor its continuation writes the cache.
\<close>

theorem discoverBedrockModels_cache_lookup:
  "(0 < refreshIntervalSecondsOf params
      \<and> discoveryCache s (cacheKeyOf stringify params) = Some entry
      \<and> cachedValue entry = Some v \<and> now params < expiresAt entry
      \<longrightarrow> discoverBedrockModels_call stringify params s = (ReturnedCached v, s))
   \<and> (0 < refreshIntervalSecondsOf params
      \<and> discoveryCache s (cacheKeyOf stringify params) = Some entry
      \<and> cachedValue entry = Some v \<and> inFlight entry = None \<and> expiresAt entry \<le> now params
      \<longrightarrow> fst (discoverBedrockModels_call stringify params s) = AwaitingFetch (fetchesStarted s)
        \<and> fetchesStarted (snd (discoverBedrockModels_call stringify params s))
            = Suc (fetchesStarted s))
   \<and> (refreshIntervalSecondsOf params = 0
      \<longrightarrow> discoverBedrockModels_call stringify params s
            = (AwaitingFetch (fetchesStarted s), s\<lparr>fetchesStarted := Suc (fetchesStarted s)\<rparr>)
        \<and> discoveryCache (snd (discoverBedrockModels_resume stringify params settled s'))
            = discoveryCache s')"
  by (auto simp: call_fresh call_expired call_uncached resume_uncached)

theorem discoverBedrockModels_cache_lookup_witness:
  "snd (discoverBedrockModels_resume exampleStringify exampleParams (Inr [])
          (snd (discoverBedrockModels_call exampleStringify exampleParams initialState)))
     = exampleFreshState
   \<and> discoverBedrockModels_call exampleStringify exampleParamsSoon exampleFreshState
       = (ReturnedCached [], exampleFreshState)
   \<and> fst (discoverBedrockModels_call exampleStringify exampleParamsLate exampleFreshState)
       = AwaitingFetch 1
   \<and> fetchesStarted
        (snd (discoverBedrockModels_call exampleStringify exampleParamsLate exampleFreshState))
       = 2
   \<and> discoverBedrockModels_call exampleStringify exampleParamsNoCache exampleFreshState
       = (AwaitingFetch 1, exampleFreshState\<lparr>fetchesStarted := 2\<rparr>)"
proof -
  let ?e = "\<lparr>expiresAt = 3601000, cachedValue = Some [], inFlight = None\<rparr>"
  have i: "refreshIntervalSecondsOf exampleParamsSoon = 3600"
      "refreshIntervalSecondsOf exampleParamsLate = 3600"
      "refreshIntervalSecondsOf exampleParamsNoCache = 0"
    by (simp_all add: refreshIntervalSecondsOf_def exampleParamsSoon_def exampleParamsLate_def
        exampleParamsNoCache_def DEFAULT_REFRESH_INTERVAL_SECONDS_def)
  have k: "cacheKeyOf exampleStringify exampleParamsSoon = ''us-east-1''"
      "cacheKeyOf exampleStringify exampleParamsLate = ''us-east-1''"
    by (simp_all add: cacheKeyOf_def buildCacheKey_def exampleStringify_def
        exampleParamsSoon_def exampleParamsLate_def providerFilterOf_def
        normalizeProviderFilter_def)
  have n: "now exampleParamsSoon = 11000" "now exampleParamsLate = 7201000"
    by (simp_all add: exampleParamsSoon_def exampleParamsLate_def)
  have st: "snd (discoverBedrockModels_resume exampleStringify exampleParams (Inr [])
            (snd (discoverBedrockModels_call exampleStringify exampleParams initialState)))
          = exampleFreshState"
    by (simp add: discoverBedrockModels_call_def discoverBedrockModels_resume_def Let_def
        interval_example key_example initialState_def exampleFreshState_def)
       (simp add: exampleParams_def)
  have e: "discoveryCache exampleFreshState ''us-east-1'' = Some ?e"
      "fetchesStarted exampleFreshState = 1"
    by (simp_all add: exampleFreshState_def)
  from discoverBedrockModels_cache_lookup
         [of exampleParamsSoon exampleFreshState exampleStringify ?e "[]" "Inr []"
             exampleFreshState]
  have r1: "discoverBedrockModels_call exampleStringify exampleParamsSoon exampleFreshState
              = (ReturnedCached [], exampleFreshState)"
    by (simp add: i k n e)
  from discoverBedrockModels_cache_lookup
         [of exampleParamsLate exampleFreshState exampleStringify ?e "[]" "Inr []"
             exampleFreshState]
  have r2: "fst (discoverBedrockModels_call exampleStringify exampleParamsLate
                   exampleFreshState) = AwaitingFetch 1
            \<and> fetchesStarted (snd (discoverBedrockModels_call exampleStringify
                   exampleParamsLate exampleFreshState)) = 2"
    by (simp add: i k n e)
  from discoverBedrockModels_cache_lookup
         [of exampleParamsNoCache exampleFreshState exampleStringify ?e "[]" "Inr []"
             exampleFreshState]
  have r3: "discoverBedrockModels_call exampleStringify exampleParamsNoCache exampleFreshState
              = (AwaitingFetch 1, exampleFreshState\<lparr>fetchesStarted := 2\<rparr>)"
    by (simp add: i e)
  from st r1 r2 r3 show ?thesis by blast
qed

text \<open>The call that started a fetch absorbs its rejection: it returns the empty list,
  removes the cache entry of its key, and logs the first failure only.\<close>

lemma discoverBedrockModels_resume_rejected:
  "discoverBedrockModels_resume stringify params (Inl e) s =
     ([],
      (if 0 < refreshIntervalSecondsOf params
       then s\<lparr>discoveryCache := (discoveryCache s)(cacheKeyOf stringify params := None)\<rparr>
       else s)
      \<lparr>hasLoggedBedrockError := True,
       warningsLogged := (if hasLoggedBedrockError s then warningsLogged s
                          else Suc (warningsLogged s))\<rparr>)"
  by (simp add: discoverBedrockModels_resume_def Let_def)

lemma call_started_entry:
  assumes "discoverBedrockModels_call stringify p s = (AwaitingFetch f, s1)"
    and "0 < refreshIntervalSecondsOf p"
  shows "f = fetchesStarted s \<and> fetchesStarted s1 = Suc (fetchesStarted s)
         \<and> (\<exists>entry. discoveryCache s1 (cacheKeyOf stringify p) = Some entry
               \<and> cachedValue entry = None \<and> inFlight entry = Some f)"
  using assms
  by (auto simp: discoverBedrockModels_call_def Let_def split: option.splits if_splits)

lemma call_joins:
  assumes "0 < refreshIntervalSecondsOf p"
    and "discoveryCache s (cacheKeyOf stringify p) = Some entry"
    and "cachedValue entry = None" and "inFlight entry = Some f"
  shows "discoverBedrockModels_call stringify p s = (ReturnedInFlight f, s)"
  using assms by (simp add: discoverBedrockModels_call_def Let_def)

text \<open>
  C2. When a call has started a fetch and a second call with the same cache key and a
  refresh interval above zero arrives before that fetch has settled, the second call
  returns the in-flight promise of the first: no second fetch is started, and when the
  fetch is fulfilled both calls resolve to its value.
\<close>

theorem discoverBedrockModels_concurrent_calls_share_fetch:
  "discoverBedrockModels_call stringify p1 s = (AwaitingFetch f, s1)
   \<and> 0 < refreshIntervalSecondsOf p1 \<and> 0 < refreshIntervalSecondsOf p2
   \<and> cacheKeyOf stringify p2 = cacheKeyOf stringify p1
   \<longrightarrow> discoverBedrockModels_call stringify p2 s1 = (ReturnedInFlight f, s1)
     \<and> fetchesStarted s1 = Suc (fetchesStarted s)
     \<and> (settlement f = Inr v \<longrightarrow>
          fst (discoverBedrockModels_result stringify p1 (AwaitingFetch f) settlement s1) = Inr v
          \<and> fst (discoverBedrockModels_result stringify p2 (ReturnedInFlight f) settlement s1)
              = Inr v)"
proof (intro impI, elim conjE)
  assume c: "discoverBedrockModels_call stringify p1 s = (AwaitingFetch f, s1)"
    and i1: "0 < refreshIntervalSecondsOf p1" and i2: "0 < refreshIntervalSecondsOf p2"
    and k: "cacheKeyOf stringify p2 = cacheKeyOf stringify p1"
  from call_started_entry [OF c i1] obtain entry where
    n: "fetchesStarted s1 = Suc (fetchesStarted s)"
    and e: "discoveryCache s1 (cacheKeyOf stringify p1) = Some entry"
      "cachedValue entry = None" "inFlight entry = Some f"
    by blast
  from e k have "discoverBedrockModels_call stringify p2 s1 = (ReturnedInFlight f, s1)"
    by (intro call_joins [OF i2, of _ _ entry]) simp_all
  with n show "discoverBedrockModels_call stringify p2 s1 = (ReturnedInFlight f, s1)
     \<and> fetchesStarted s1 = Suc (fetchesStarted s)
     \<and> (settlement f = Inr v \<longrightarrow>
          fst (discoverBedrockModels_result stringify p1 (AwaitingFetch f) settlement s1) = Inr v
          \<and> fst (discoverBedrockModels_result stringify p2 (ReturnedInFlight f) settlement s1)
              = Inr v)"
    by (simp add: discoverBedrockModels_result_def discoverBedrockModels_resume_def Let_def)
qed

theorem discoverBedrockModels_concurrent_calls_share_fetch_witness:
  "fst (discoverBedrockModels_call exampleStringify exampleParams initialState) = AwaitingFetch 0
   \<and> fst (discoverBedrockModels_call exampleStringify exampleParamsSoon
            (snd (discoverBedrockModels_call exampleStringify exampleParams initialState)))
       = ReturnedInFlight 0
   \<and> fetchesStarted
        (snd (discoverBedrockModels_call exampleStringify exampleParamsSoon
            (snd (discoverBedrockModels_call exampleStringify exampleParams initialState)))) = 1"
proof -
  let ?s1 = "\<lparr>discoveryCache = [''us-east-1'' \<mapsto>
                 \<lparr>expiresAt = 3601000, cachedValue = None, inFlight = Some 0\<rparr>],
              hasLoggedBedrockError = False, fetchesStarted = Suc 0, warningsLogged = 0\<rparr>"
  have i: "0 < refreshIntervalSecondsOf exampleParams"
      "0 < refreshIntervalSecondsOf exampleParamsSoon"
    by (simp_all add: refreshIntervalSecondsOf_def exampleParams_def exampleParamsSoon_def
        DEFAULT_REFRESH_INTERVAL_SECONDS_def)
  have k: "cacheKeyOf exampleStringify exampleParamsSoon = cacheKeyOf exampleStringify exampleParams"
    by (simp add: cacheKeyOf_def exampleParams_def exampleParamsSoon_def
        providerFilterOf_def refreshIntervalSecondsOf_def)
  have c: "discoverBedrockModels_call exampleStringify exampleParams initialState
             = (AwaitingFetch 0, ?s1)"
    by (simp add: discoverBedrockModels_call_def Let_def interval_example key_example
        initialState_def) (simp add: exampleParams_def)
  from c i k have
    "discoverBedrockModels_call exampleStringify exampleParams initialState
       = (AwaitingFetch 0, ?s1)
     \<and> 0 < refreshIntervalSecondsOf exampleParams
     \<and> 0 < refreshIntervalSecondsOf exampleParamsSoon
     \<and> cacheKeyOf exampleStringify exampleParamsSoon
         = cacheKeyOf exampleStringify exampleParams"
    by blast
  with discoverBedrockModels_concurrent_calls_share_fetch
         [of exampleStringify exampleParams initialState 0 ?s1 exampleParamsSoon
             allFulfilled "[]"]
  have "discoverBedrockModels_call exampleStringify exampleParamsSoon ?s1
          = (ReturnedInFlight 0, ?s1)"
    by blast
  then show ?thesis by (simp add: c)
qed

text \<open>
  C4. The claim is that every call whose fetch is rejected resolves to the empty list.
  Two calls with the same parameters are made on the initial state and the fetch is
  rejected: the call that started the fetch resolves to the empty list, but the second
  call, which returned \<open>cached.inFlight\<close>, is rejected with the error of the fetch.
\<close>

theorem discoverBedrockModels_joined_call_rejects:
  "fst (discoverBedrockModels_call exampleStringify exampleParams initialState) = AwaitingFetch 0
   \<and> fst (discoverBedrockModels_call exampleStringify exampleParams
            (snd (discoverBedrockModels_call exampleStringify exampleParams initialState)))
       = ReturnedInFlight 0
   \<and> fst (discoverBedrockModels_result exampleStringify exampleParams (AwaitingFetch 0)
            allRejected
            (snd (discoverBedrockModels_call exampleStringify exampleParams initialState)))
       = Inr []
   \<and> fst (discoverBedrockModels_result exampleStringify exampleParams (ReturnedInFlight 0)
            allRejected
            (snd (discoverBedrockModels_call exampleStringify exampleParams initialState)))
       = Inl RequestFailed"
  by (simp add: discoverBedrockModels_call_def discoverBedrockModels_result_def
      discoverBedrockModels_resume_def Let_def interval_example key_example
      initialState_def allRejected_def)

end
